theory Spec2Isabelle
  imports Main "HOL-Library.Word" "HOL-Library.AList"
begin

section \<open>Data model\<close>

text \<open>
  The records of the savings application, as the JavaScript objects the three source
  files build and read. A field that the code tests for absence is an \<open>option\<close>
  (\<open>None\<close>: the property is \<open>undefined\<close> or \<open>null\<close>, where the code treats the two
  alike; the collections of an imported container, where it does not, are three-valued,
  see \<open>field\<close>). Numbers are integers.
  Timestamps (\<open>new Date().toISOString()\<close>), the browser's user agent, the random
  identifiers the migration synthesises and the text that \<open>JSON.stringify\<close> writes
  are inputs, collected in \<open>env\<close>.
\<close>

datatype sval = SStr string | SNum int | SBool bool | SNull

type_synonym settings = "(string \<times> sval) list"

type_synonym permissions = "(string \<times> bool) list"

record customer =
  c_id :: "int option"
  c_name :: string
  c_phone :: string
  c_email :: string
  c_address :: string
  c_date_joined :: string
  c_status :: string
  c_balance :: "int option"
  c_balance_savings :: int
  c_balance_loans :: int
  c_closure_date :: "string option"
  c_closure_reason :: string
  c_created_by :: string
  c_last_updated :: string

record transaction =
  t_txId :: "int option"
  t_customer_id :: "int option"
  t_type :: string
  t_amount :: int
  t_date :: string
  t_value_date :: string
  t_status :: string
  t_processed_by :: string
  t_reference :: string
  t_notes :: string
  t_reversal_of :: "int option"

record user =
  u_id :: "int option"
  u_username :: "string option"
  u_password_hash :: "string option"
  u_name :: "string option"
  u_role :: "string option"
  u_permissions :: permissions
  u_created :: string
  u_created_by :: "string option"
  u_last_login :: "string option"
  u_active :: bool

record loan =
  l_loanId :: "int option"
  l_status :: string
  l_amount_outstanding :: int

record metadata =
  total_customers :: nat
  total_transactions :: nat
  total_savings :: int
  total_loans :: int
  last_customer_id :: int
  last_transaction_id :: int
  last_updated :: string
  migration_version :: "string option"
  migration_date :: "string option"

record audit_entry =
  a_timestamp :: string
  a_action :: string
  a_details :: "(string \<times> sval) list"
  a_user_agent :: string

record counts =
  n_customers :: nat
  n_transactions :: nat
  n_users :: nat


text \<open>
  \<open>backup_history\<close> and \<open>audit_log\<close> are arrays that the store mutates in place
  (\<open>unshift\<close>) and shares between the live snapshot and the shallow copies embedded in
  backups (\<open>{ ...this.currentData }\<close>), so a snapshot holds them by reference: an index
  into the heap of arrays. Snapshot objects are on a heap too, since
  \<open>this.currentData = backup.data\<close> makes the live snapshot and the embedded copy one
  object. The other collections are never mutated in place by the code and are held by
  value.
\<close>

type_synonym ref = nat

record snapshot =
  settings :: settings
  users :: "user list"
  customers :: "customer list"
  transactions :: "transaction list"
  loans :: "loan list"
  backup_history :: ref
  audit_log :: ref
  metadata :: metadata

text \<open>
  An entry of \<open>backup_history\<close> is what \<open>createBackup\<close> pushes (a tag, a timestamp,
  the embedded copy and the counts) or what \<open>logBackup\<close> pushes (a tag, a timestamp,
  the size of the export and the counts, with no \<open>data\<close> property).
\<close>

datatype backup =
    Backup (b_type: string) (b_timestamp: string) (b_data: ref) (b_metadata: counts)
  | BackupLog (b_type: string) (b_timestamp: string) (b_size: nat) (b_items: counts)

text \<open>What \<open>JSON.stringify\<close> makes of a history array: a finite tree.\<close>

datatype tbackup =
    TBackup string string tsnapshot counts
  | TBackupLog string string nat counts
and tsnapshot =
    TSnapshot settings "user list" "customer list" "transaction list" "loan list"
      "tbackup list" "audit_entry list" metadata

text \<open>
  The environment of a call. \<open>json_text\<close> is the text of \<open>JSON.stringify\<close> for a
  snapshot (\<open>None\<close>: for \<open>null\<close>) as UTF-16 code units, of which the checksum is
  taken; \<open>json_size\<close> is the length of the text of an exported container.
\<close>

record env =
  now :: string
  user_agent :: string
  synth_txid :: "nat \<Rightarrow> int"
  synth_uid :: "nat \<Rightarrow> int"
  json_text :: "tsnapshot option \<Rightarrow> nat list"
  json_size :: "tsnapshot option \<Rightarrow> nat"

section \<open>Persistence\<close>

text \<open>
  \<open>localStorage\<close>, restricted to the keys the code uses: the six keys of the old schema
  (prefix \<open>obata_\<close>) and the keys of the current one (prefix \<open>obata_v2_\<close>). A slot
  holds the value that \<open>JSON.parse\<close> gives for the stored text; \<open>None\<close> is a key that
  \<open>getItem\<close> answers with \<open>null\<close>. Writes never fail (no quota is modelled).
\<close>

record member =
  m_name :: "string option"
  m_phone :: "string option"
  m_email :: "string option"
  m_address :: "string option"
  m_date :: "string option"
  m_active :: "bool option"
  m_closureDate :: "string option"
  m_closureReason :: "string option"
  m_createdBy :: "string option"

record ledger_entry =
  e_txId :: "int option"
  e_cust :: "string option"
  e_type :: string
  e_amount :: int
  e_date :: "string option"
  e_valueDate :: "string option"
  e_reversed :: bool
  e_processedBy :: "string option"
  e_ref :: "string option"
  e_notes :: "string option"

record old_user =
  ou_id :: "int option"
  ou_username :: "string option"
  ou_password :: "string option"
  ou_name :: "string option"
  ou_role :: "string option"
  ou_permissions :: "permissions option"
  ou_created :: "string option"
  ou_createdBy :: "string option"
  ou_lastLogin :: "string option"
  ou_active :: "bool option"

record old_data =
  o_auth :: "sval option"
  o_members :: "(string \<times> member) list option"
  o_ledger :: "ledger_entry list option"
  o_last_id :: "int option"
  o_users :: "old_user list option"
  o_settings :: "settings option"

record localStorage =
  obata_auth :: "sval option"
  obata_members :: "(string \<times> member) list option"
  obata_ledger :: "ledger_entry list option"
  obata_last_id :: "int option"
  obata_users :: "old_user list option"
  obata_settings :: "settings option"
  obata_v2_settings :: "settings option"
  obata_v2_users :: "user list option"
  obata_v2_customers :: "customer list option"
  obata_v2_transactions :: "transaction list option"
  obata_v2_loans :: "loan list option"
  obata_v2_backup_history :: "tbackup list option"
  obata_v2_audit_log :: "audit_entry list option"
  obata_v2_metadata :: "metadata option"
  obata_v2_archive_v22 :: "old_data option"

text \<open>The state of a \<open>StorageManager\<close> with the heap and the persistence layer.\<close>

record state =
  currentData :: "ref option"
  objs :: "snapshot list"
  hists :: "backup list list"
  audits :: "audit_entry list list"
  storage :: localStorage

text \<open>The persistence layer with no key set.\<close>

definition empty_storage :: localStorage where
  "empty_storage =
     \<lparr> obata_auth = None, obata_members = None, obata_ledger = None, obata_last_id = None,
       obata_users = None, obata_settings = None, obata_v2_settings = None,
       obata_v2_users = None, obata_v2_customers = None, obata_v2_transactions = None,
       obata_v2_loans = None, obata_v2_backup_history = None, obata_v2_audit_log = None,
       obata_v2_metadata = None, obata_v2_archive_v22 = None \<rparr>"

datatype error = TypeError | InvalidFormat | NotFound

section \<open>Snapshot Store: statistics\<close>

text \<open>
  \<open>calculateTotalSavings\<close> of the store reads the property \<open>balance\<close>
  (\<open>customer.balance || 0\<close>), the one of the migrator reads \<open>balance_savings\<close>.
\<close>

definition calculateTotalSavings :: "customer list \<Rightarrow> int" where
  "calculateTotalSavings cs =
     foldl (\<lambda>total c. total + (case c_balance c of None \<Rightarrow> 0 | Some b \<Rightarrow> b)) 0 cs"

definition migrator_calculateTotalSavings :: "customer list \<Rightarrow> int" where
  "migrator_calculateTotalSavings cs = foldl (\<lambda>total c. total + c_balance_savings c) 0 cs"

definition calculateTotalLoans :: "loan list \<Rightarrow> int" where
  "calculateTotalLoans ls =
     foldl (\<lambda>total l. total + l_amount_outstanding l) 0
       (filter (\<lambda>l. l_status l = ''active'') ls)"

text \<open>\<open>parseInt(item[idField]) || 0\<close> on a number or a missing property.\<close>

definition id_or_zero :: "int option \<Rightarrow> int" where
  "id_or_zero i = (case i of None \<Rightarrow> 0 | Some n \<Rightarrow> n)"

definition getLastId :: "int option list \<Rightarrow> int" where
  "getLastId ids = (if ids = [] then 100 else foldl max 100 (map id_or_zero ids))"

definition compute_metadata :: "env \<Rightarrow> snapshot \<Rightarrow> metadata" where
  "compute_metadata ev sd =
     \<lparr> total_customers = length (customers sd),
       total_transactions = length (transactions sd),
       total_savings = calculateTotalSavings (customers sd),
       total_loans = calculateTotalLoans (loans sd),
       last_customer_id = getLastId (map c_id (customers sd)),
       last_transaction_id = getLastId (map t_txId (transactions sd)),
       last_updated = now ev,
       migration_version = None,
       migration_date = None \<rparr>"

section \<open>Serialisation of the heap\<close>

text \<open>
  \<open>JSON.stringify\<close> walks the object graph and throws a \<open>TypeError\<close> when an object
  is its own ancestor. \<open>path\<close> is the list of the snapshot objects above the one being
  written; every cycle of this heap passes through a snapshot object.
\<close>

function stringify_snapshot :: "state \<Rightarrow> ref list \<Rightarrow> ref \<Rightarrow> tsnapshot option" where
  "stringify_snapshot st path r =
     (if r \<in> set path \<or> length (objs st) \<le> r then None
      else
        let sd = objs st ! r;
            hs = map (\<lambda>b. case b of
                        Backup ty ts d cn \<Rightarrow>
                          map_option (\<lambda>t. TBackup ty ts t cn) (stringify_snapshot st (r # path) d)
                      | BackupLog ty ts sz cn \<Rightarrow> Some (TBackupLog ty ts sz cn))
                     (if backup_history sd < length (hists st)
                      then hists st ! backup_history sd else [])
        in if list_all (\<lambda>h. h \<noteq> None) hs
           then Some (TSnapshot (settings sd) (users sd) (customers sd) (transactions sd)
                        (loans sd) (map the hs)
                        (if audit_log sd < length (audits st)
                         then audits st ! audit_log sd else [])
                        (metadata sd))
           else None)"
  by pat_completeness auto
termination
proof (relation "measure (\<lambda>(st, path, r). card ({..<length (objs st)} - set path))")
  show "wf (measure (\<lambda>(st, path, r). card ({..<length (objs st)} - set path)))"
    by simp
next
  fix st :: state and path :: "ref list" and r :: ref
  assume "\<not> (r \<in> set path \<or> length (objs st) \<le> r)"
  then have "r \<in> {..<length (objs st)} - set path"
    by simp
  then have "card ({..<length (objs st)} - set path - {r}) < card ({..<length (objs st)} - set path)"
    by (intro card_Diff1_less) simp_all
  moreover have "{..<length (objs st)} - set (r # path) = {..<length (objs st)} - set path - {r}"
    by auto
  ultimately show "\<And>a b c d e f g. ((st, r # path, e), (st, path, r))
        \<in> measure (\<lambda>(st, path, r). card ({..<length (objs st)} - set path))"
    by simp
qed

section \<open>Snapshot Store: heap access, audit log and save\<close>

text \<open>
  The live snapshot object, or \<open>None\<close> when \<open>this.currentData\<close> is \<open>null\<close> or
  \<open>undefined\<close> (a property read on it throws a \<open>TypeError\<close>). A reference outside
  the heap does not occur in a state the program builds; the accessors answer \<open>None\<close>
  and the empty array there.
\<close>

definition live :: "state \<Rightarrow> (ref \<times> snapshot) option" where
  "live st =
     (case currentData st of
        None \<Rightarrow> None
      | Some r \<Rightarrow> if r < length (objs st) then Some (r, objs st ! r) else None)"

definition hist_at :: "state \<Rightarrow> ref \<Rightarrow> backup list" where
  "hist_at st h = (if h < length (hists st) then hists st ! h else [])"

definition audit_at :: "state \<Rightarrow> ref \<Rightarrow> audit_entry list" where
  "audit_at st a = (if a < length (audits st) then audits st ! a else [])"

text \<open>\<open>JSON.stringify\<close> of a history array, as \<open>save('backup_history', ...)\<close> calls it.\<close>

definition stringify_history :: "state \<Rightarrow> ref \<Rightarrow> tbackup list option" where
  "stringify_history st h =
     (let hs = map (\<lambda>b. case b of
                      Backup ty ts d cn \<Rightarrow>
                        map_option (\<lambda>t. TBackup ty ts t cn) (stringify_snapshot st [] d)
                    | BackupLog ty ts sz cn \<Rightarrow> Some (TBackupLog ty ts sz cn))
                   (hist_at st h)
      in if list_all (\<lambda>h. h \<noteq> None) hs then Some (map the hs) else None)"

text \<open>
  \<open>logAudit\<close>: the entry is put in front of the live array in place; past 1000 entries
  the snapshot gets a new, truncated array (\<open>slice\<close>); the array is persisted.
\<close>

definition logAudit :: "env \<Rightarrow> string \<Rightarrow> (string \<times> sval) list \<Rightarrow> state \<Rightarrow> error + state" where
  "logAudit ev action details st =
     (case live st of
        None \<Rightarrow> Inl TypeError
      | Some (r, sd) \<Rightarrow>
          let logEntry = \<lparr> a_timestamp = now ev, a_action = action, a_details = details,
                           a_user_agent = user_agent ev \<rparr>;
              a = audit_log sd;
              arr = logEntry # audit_at st a;
              st1 = st\<lparr>audits := (audits st)[a := arr]\<rparr>;
              st2 = (if length arr > 1000
                     then st1\<lparr>audits := audits st1 @ [take 1000 arr],
                              objs := (objs st1)[r := sd\<lparr>audit_log := length (audits st1)\<rparr>]\<rparr>
                     else st1)
          in Inr (st2\<lparr>storage := (storage st2)
                     \<lparr>obata_v2_audit_log :=
                        Some (audit_at st2 (audit_log (objs st2 ! r)))\<rparr>\<rparr>))"

text \<open>
  \<open>saveAllData(data)\<close>: the result is \<open>None\<close> for \<open>undefined\<close> (nothing to save),
  \<open>Some False\<close> when an exception was caught, \<open>Some True\<close> otherwise. The metadata
  is assigned before the eight writes; the write of \<open>backup_history\<close> throws when the
  history cannot be serialised, and then neither \<open>audit_log\<close> nor \<open>metadata\<close> is
  written and no \<open>DATA_SAVED\<close> entry is logged.
\<close>

definition saveAllData :: "env \<Rightarrow> ref option \<Rightarrow> state \<Rightarrow> bool option \<times> state" where
  "saveAllData ev data st =
     (case (case data of Some d \<Rightarrow> Some d | None \<Rightarrow> currentData st) of
        None \<Rightarrow> (None, st)
      | Some r \<Rightarrow>
          if length (objs st) \<le> r then (None, st)
          else
            let md = compute_metadata ev (objs st ! r);
                sd = (objs st ! r)\<lparr>metadata := md\<rparr>;
                st1 = st\<lparr>objs := (objs st)[r := sd]\<rparr>;
                ls1 = (storage st1)
                        \<lparr>obata_v2_settings := Some (settings sd),
                         obata_v2_users := Some (users sd),
                         obata_v2_customers := Some (customers sd),
                         obata_v2_transactions := Some (transactions sd),
                         obata_v2_loans := Some (loans sd)\<rparr>
            in case stringify_history st1 (backup_history sd) of
                 None \<Rightarrow> (Some False, st1\<lparr>storage := ls1\<rparr>)
               | Some hs \<Rightarrow>
                   let st2 = st1\<lparr>storage := ls1
                               \<lparr>obata_v2_backup_history := Some hs,
                                obata_v2_audit_log := Some (audit_at st1 (audit_log sd)),
                                obata_v2_metadata := Some md\<rparr>\<rparr>
                   in case logAudit ev ''DATA_SAVED''
                             [(''timestamp'', SStr (now ev)),
                              (''items_saved'',
                                 SNum (int (total_customers md + total_transactions md))),
                              (''user'', SStr ''system'')] st2 of
                        Inl e \<Rightarrow> (Some False, st2)
                      | Inr st3 \<Rightarrow> (Some True, st3))"

section \<open>Backup/Restore Exchanger: containers, validation and merge\<close>

text \<open>
  A property of the \<open>data\<close> of an imported container, as \<open>JSON.parse\<close> gives it: the
  property is missing (\<open>Undefined\<close>: reading it gives \<open>undefined\<close>), it holds
  \<open>null\<close> (\<open>Null\<close>), or it holds a value of its type (\<open>Val\<close>: for a collection an
  array of records). The validation of an import tells \<open>undefined\<close> from everything
  else (\<open>!== undefined\<close>), the loops of the merge need an array: \<open>null\<close> is present
  for the first and throws a \<open>TypeError\<close> in the second. A number, a boolean or an
  object in the place of a collection takes the path of \<open>null\<close> in both.
\<close>

datatype 'a field = Undefined | Null | Val 'a

text \<open>
  An imported container is the value that \<open>JSON.parse\<close> gives for the file. Its
  \<open>schema_version\<close> is \<open>None\<close> when the property is missing or is not a string, its
  \<open>data\<close> is \<open>None\<close> when the property is missing, \<open>null\<close> or not an object (a number,
  a string, a boolean or an array has no property \<open>customers\<close>): the validation answers
  all of these alike. A parsed value that is not an object is the container with every
  property missing. The date is written by the store as \<open>export_date\<close> and by the
  standalone utility as \<open>backup_date\<close>.
\<close>

record import_data =
  i_settings :: "settings field"
  i_users :: "user list field"
  i_customers :: "customer list field"
  i_transactions :: "transaction list field"
  i_loans :: "loan list field"
  i_backup_history :: "tbackup list field"
  i_audit_log :: "audit_entry list field"
  i_metadata :: "metadata field"

record container =
  schema_version :: "string option"
  export_date :: "string option"
  backup_date :: "string option"
  data :: "import_data option"
  checksum :: "string option"

definition validateImportData :: "container \<Rightarrow> bool" where
  "validateImportData c =
     (schema_version c = Some ''2.3'' \<and>
      (case data c of
         None \<Rightarrow> False
       | Some d \<Rightarrow> i_customers d \<noteq> Undefined \<and> i_transactions d \<noteq> Undefined))"

text \<open>\<open>x || y\<close> on two collections: an array is truthy, also when empty, \<open>null\<close> is not.\<close>

definition is_array :: "'a field \<Rightarrow> bool" where
  "is_array f = (case f of Val x \<Rightarrow> True | _ \<Rightarrow> False)"

text \<open>
  \<open>validateBackup\<close> of the standalone backup utility: the date must be truthy, and one
  of the two collections.
\<close>

definition validateBackup :: "container \<Rightarrow> bool" where
  "validateBackup c =
     (schema_version c = Some ''2.3'' \<and>
      (case data c of
         None \<Rightarrow> False
       | Some d \<Rightarrow>
           (case backup_date c of None \<Rightarrow> False | Some b \<Rightarrow> b \<noteq> []) \<and>
           (is_array (i_customers d) \<or> is_array (i_transactions d))))"

text \<open>
  The loop of \<open>mergeData\<close> over an imported collection: an imported record is pushed
  unless \<open>find\<close> meets a record with the same key among those merged so far.
\<close>

fun merge_by :: "('a \<Rightarrow> 'k) \<Rightarrow> 'a list \<Rightarrow> 'a list \<Rightarrow> 'a list" where
  "merge_by key merged [] = merged"
| "merge_by key merged (x # xs) =
     merge_by key (if find (\<lambda>c. key c = key x) merged = None then merged @ [x] else merged) xs"

text \<open>\<open>Array.prototype.findIndex\<close>: the first index whose element satisfies \<open>P\<close>, or -1.\<close>

fun findIndex :: "('a \<Rightarrow> bool) \<Rightarrow> 'a list \<Rightarrow> int" where
  "findIndex P [] = -1"
| "findIndex P (x # xs) =
     (if P x then 0 else (let i = findIndex P xs in if i < 0 then -1 else i + 1))"

text \<open>\<open>a.filter((v, i, a) => a.findIndex(t => t.loanId === v.loanId) === i)\<close>\<close>

definition dedup_by :: "('a \<Rightarrow> 'k) \<Rightarrow> 'a list \<Rightarrow> 'a list" where
  "dedup_by key a =
     map snd (filter (\<lambda>(i, v). findIndex (\<lambda>t. key t = key v) a = int i) (enumerate 0 a))"

text \<open>\<open>{ ...e, ...i }\<close>: the keys of \<open>i\<close> are assigned in order over a copy of \<open>e\<close>.\<close>

definition overlay :: "settings \<Rightarrow> settings \<Rightarrow> settings" where
  "overlay e i = fold (\<lambda>(k, v). AList.update k v) i e"

text \<open>
  \<open>mergeData(existing, imported)\<close>. \<open>imported.customers.forEach\<close> and the like throw
  a \<open>TypeError\<close> on a collection that is missing or \<open>null\<close>, and so does the spread
  of such \<open>loans\<close> into an array; the spread of missing or \<open>null\<close> \<open>settings\<close> into
  an object adds nothing. The result is a new object that takes every other property
  from \<open>existing\<close>.
\<close>

definition mergeData :: "snapshot \<Rightarrow> import_data \<Rightarrow> error + snapshot" where
  "mergeData existing imported =
     (case i_customers imported of
        Undefined \<Rightarrow> Inl TypeError | Null \<Rightarrow> Inl TypeError | Val ic \<Rightarrow>
      case i_transactions imported of
        Undefined \<Rightarrow> Inl TypeError | Null \<Rightarrow> Inl TypeError | Val it \<Rightarrow>
      case i_users imported of
        Undefined \<Rightarrow> Inl TypeError | Null \<Rightarrow> Inl TypeError | Val iu \<Rightarrow>
      case i_loans imported of
        Undefined \<Rightarrow> Inl TypeError | Null \<Rightarrow> Inl TypeError | Val il \<Rightarrow>
        Inr (existing
              \<lparr>customers := merge_by c_id (customers existing) ic,
               transactions := merge_by t_txId (transactions existing) it,
               users := merge_by u_username (users existing) iu,
               settings := overlay (settings existing)
                             (case i_settings imported of Val s \<Rightarrow> s | _ \<Rightarrow> []),
               loans := dedup_by l_loanId (loans existing @ il)\<rparr>))"

text \<open>
  The wording of the specification, to compare the code with. The union of two
  collections keyed by \<open>key\<close> in which the first collection wins: its records, followed by
  the records of the second whose key is new, one for each key.
\<close>

fun first_by :: "('a \<Rightarrow> 'k) \<Rightarrow> 'k list \<Rightarrow> 'a list \<Rightarrow> 'a list" where
  "first_by key seen [] = []"
| "first_by key seen (x # xs) =
     (if key x \<in> set seen then first_by key seen xs
      else x # first_by key (key x # seen) xs)"

definition keyed_union :: "('a \<Rightarrow> 'k) \<Rightarrow> 'a list \<Rightarrow> 'a list \<Rightarrow> 'a list" where
  "keyed_union key e i = e @ first_by key (map key e) i"

text \<open>What a collection keyed by \<open>key\<close> holds under the key \<open>k\<close>.\<close>

definition lookup_by :: "('a \<Rightarrow> 'k) \<Rightarrow> 'a list \<Rightarrow> 'k \<Rightarrow> 'a option" where
  "lookup_by key xs k = find (\<lambda>x. key x = k) xs"

section \<open>Default data templates\<close>

definition getDefaultSettings :: settings where
  "getDefaultSettings =
     [(''app_name'', SStr ''OBATA SMART SAVINGS''),
      (''currency'', SStr [CHR 0xE2, CHR 0x82, CHR 0xA6]),
      (''default_interest_rate'', SNum 5),
      (''minimum_savings'', SNum 100),
      (''maximum_loan_multiplier'', SNum 2),
      (''auto_backup_interval'', SStr ''daily''),
      (''backup_retention_days'', SNum 30),
      (''theme'', SStr ''light''),
      (''language'', SStr ''en''),
      (''date_format'', SStr ''dd/mm/yyyy''),
      (''timezone'', SStr ''Africa/Lagos'')]"

definition capabilities :: "string list" where
  "capabilities =
     [''member_creation'', ''transaction_posting'', ''withdrawal'', ''loan_management'',
      ''account_closure'', ''account_reactivation'', ''view_statements'',
      ''search_customers'', ''generate_reports'', ''manage_users'', ''import_export'',
      ''system_settings'', ''drive_management'']"

definition getDefaultUsers :: "env \<Rightarrow> user list" where
  "getDefaultUsers ev =
     [\<lparr> u_id = Some 1, u_username = Some ''Admin'', u_password_hash = Some ''admin123'',
        u_name = Some ''Administrator'', u_role = Some ''admin'',
        u_permissions = map (\<lambda>c. (c, True)) capabilities,
        u_created = now ev, u_created_by = None, u_last_login = None, u_active = True \<rparr>]"

definition getDefaultMetadata :: "env \<Rightarrow> metadata" where
  "getDefaultMetadata ev =
     \<lparr> total_customers = 0, total_transactions = 0, total_savings = 0, total_loans = 0,
       last_customer_id = 100, last_transaction_id = 1000, last_updated = now ev,
       migration_version = None, migration_date = None \<rparr>"

section \<open>Migrator\<close>

text \<open>
  \<open>parseInt\<close> on a string: leading white space is skipped, a sign and the prefix
  \<open>0x\<close> are read, then the longest run of digits; \<open>None\<close> is \<open>NaN\<close>.
\<close>

definition is_space :: "char \<Rightarrow> bool" where
  "is_space c = (c \<in> set [CHR 0x20, CHR 0x09, CHR 0x0A, CHR 0x0B, CHR 0x0C, CHR 0x0D])"

definition digit_of :: "nat \<Rightarrow> char \<Rightarrow> nat option" where
  "digit_of radix c =
     (let n = of_char c :: nat;
          d = (if 48 \<le> n \<and> n \<le> 57 then Some (n - 48)
               else if 97 \<le> n \<and> n \<le> 122 then Some (n - 87)
               else if 65 \<le> n \<and> n \<le> 90 then Some (n - 55)
               else None)
      in case d of None \<Rightarrow> None | Some v \<Rightarrow> if v < radix then Some v else None)"

definition parse_digits :: "nat \<Rightarrow> string \<Rightarrow> int option" where
  "parse_digits radix s =
     (let ds = takeWhile (\<lambda>c. digit_of radix c \<noteq> None) s
      in if ds = [] then None
         else Some (foldl (\<lambda>acc c. acc * int radix + int (the (digit_of radix c))) 0 ds))"

definition parseInt :: "string \<Rightarrow> int option" where
  "parseInt s =
     (let s1 = dropWhile is_space s;
          neg = (case s1 of c # _ \<Rightarrow> c = CHR ''-'' | [] \<Rightarrow> False);
          s2 = (case s1 of c # r \<Rightarrow> if c = CHR ''-'' \<or> c = CHR ''+'' then r else s1 | [] \<Rightarrow> s1);
          hex = (case s2 of a # b # _ \<Rightarrow> a = CHR ''0'' \<and> (b = CHR ''x'' \<or> b = CHR ''X'')
                          | _ \<Rightarrow> False);
          v = (if hex then parse_digits 16 (drop 2 s2) else parse_digits 10 s2)
      in map_option (\<lambda>n. if neg then - n else n) v)"

text \<open>\<open>x || d\<close> on an optional string: the empty string is falsy.\<close>

definition or_else :: "string option \<Rightarrow> string \<Rightarrow> string" where
  "or_else x d = (case x of None \<Rightarrow> d | Some s \<Rightarrow> if s = [] then d else s)"

definition truthy_int :: "int option \<Rightarrow> bool" where
  "truthy_int x = (case x of None \<Rightarrow> False | Some n \<Rightarrow> n \<noteq> 0)"

text \<open>The first exception of a sequence of computations, or all their results.\<close>

fun collect :: "(error + 'a) list \<Rightarrow> error + 'a list" where
  "collect [] = Inr []"
| "collect (Inl e # xs) = Inl e"
| "collect (Inr x # xs) = (case collect xs of Inl e \<Rightarrow> Inl e | Inr ys \<Rightarrow> Inr (x # ys))"

text \<open>
  The entries of a customer: \<open>tx.cust.toString() === customerId.toString() && !tx.reversed\<close>.
  \<open>e_cust\<close> holds the text of \<open>cust\<close>; on an entry without \<open>cust\<close> the call of
  \<open>toString\<close> throws.
\<close>

definition customerTxs :: "string \<Rightarrow> ledger_entry list \<Rightarrow> error + ledger_entry list" where
  "customerTxs customerId ledger =
     (if \<exists>tx \<in> set ledger. e_cust tx = None then Inl TypeError
      else Inr (filter (\<lambda>tx. e_cust tx = Some customerId \<and> \<not> e_reversed tx) ledger))"

definition calculateSavingsBalance :: "string \<Rightarrow> ledger_entry list option \<Rightarrow> error + int" where
  "calculateSavingsBalance customerId ledger =
     (case ledger of
        None \<Rightarrow> Inr 0
      | Some l \<Rightarrow>
          (case customerTxs customerId l of
             Inl e \<Rightarrow> Inl e
           | Inr txs \<Rightarrow>
               Inr (foldl (\<lambda>balance tx.
                            if e_type tx \<in> set [''DAILY'', ''WEEKLY'', ''MONTHLY'']
                            then balance + e_amount tx
                            else if e_type tx = ''WITHDRAWAL'' then balance - e_amount tx
                            else balance) 0 txs)))"

definition calculateLoanBalance :: "string \<Rightarrow> ledger_entry list option \<Rightarrow> error + int" where
  "calculateLoanBalance customerId ledger =
     (case ledger of
        None \<Rightarrow> Inr 0
      | Some l \<Rightarrow>
          (case customerTxs customerId l of
             Inl e \<Rightarrow> Inl e
           | Inr txs \<Rightarrow>
               Inr (foldl (\<lambda>balance tx.
                            if e_type tx = ''LOAN'' then balance + e_amount tx
                            else if e_type tx = ''LOAN_REPAY'' then balance - e_amount tx
                            else balance) 0 txs)))"

definition getDefaultPermissions :: "string option \<Rightarrow> permissions" where
  "getDefaultPermissions role =
     map (\<lambda>c. (c,
            if role = Some ''admin'' then True
            else if role = Some ''supervisor''
            then c \<in> set [''member_creation'', ''transaction_posting'', ''withdrawal'',
                           ''loan_management'', ''account_closure'', ''account_reactivation'',
                           ''view_statements'', ''search_customers'', ''generate_reports'']
            else if role = Some ''thrift_collector''
            then c \<in> set [''member_creation'', ''transaction_posting'', ''withdrawal'',
                           ''loan_management'', ''view_statements'', ''search_customers'']
            else False)) capabilities"

definition today :: "env \<Rightarrow> string" where
  "today ev = takeWhile (\<lambda>c. c \<noteq> CHR ''T'') (now ev)"

definition transform_member ::
  "env \<Rightarrow> ledger_entry list option \<Rightarrow> string \<times> member \<Rightarrow> error + customer" where
  "transform_member ev ledger km =
     (case calculateSavingsBalance (fst km) ledger of
        Inl e \<Rightarrow> Inl e
      | Inr bs \<Rightarrow>
          (case calculateLoanBalance (fst km) ledger of
             Inl e \<Rightarrow> Inl e
           | Inr bl \<Rightarrow>
               Inr \<lparr> c_id = parseInt (fst km),
                     c_name = or_else (m_name (snd km)) [],
                     c_phone = or_else (m_phone (snd km)) [],
                     c_email = or_else (m_email (snd km)) [],
                     c_address = or_else (m_address (snd km)) [],
                     c_date_joined = or_else (m_date (snd km)) (today ev),
                     c_status = (if m_active (snd km) = Some False then ''inactive''
                                 else ''active''),
                     c_balance = None,
                     c_balance_savings = bs,
                     c_balance_loans = bl,
                     c_closure_date = (case m_closureDate (snd km) of
                                         None \<Rightarrow> None
                                       | Some d \<Rightarrow> if d = [] then None else Some d),
                     c_closure_reason = or_else (m_closureReason (snd km)) [],
                     c_created_by = or_else (m_createdBy (snd km)) ''system'',
                     c_last_updated = now ev \<rparr>))"

definition transform_entry :: "env \<Rightarrow> nat \<times> ledger_entry \<Rightarrow> transaction" where
  "transform_entry ev itx =
     (let tx = snd itx in
      \<lparr> t_txId = (if truthy_int (e_txId tx) then e_txId tx
                  else Some (synth_txid ev (fst itx))),
        t_customer_id = (case e_cust tx of None \<Rightarrow> None | Some c \<Rightarrow> parseInt c),
        t_type = e_type tx,
        t_amount = e_amount tx,
        t_date = or_else (e_date tx) (now ev),
        t_value_date = or_else (e_valueDate tx) (or_else (e_date tx) (now ev)),
        t_status = (if e_reversed tx then ''reversed'' else ''completed''),
        t_processed_by = or_else (e_processedBy tx) ''system'',
        t_reference = or_else (e_ref tx) [],
        t_notes = or_else (e_notes tx) [],
        t_reversal_of = (if e_reversed tx then e_txId tx else None) \<rparr>)"

definition transform_user :: "env \<Rightarrow> nat \<times> old_user \<Rightarrow> user" where
  "transform_user ev iu =
     (let u = snd iu in
      \<lparr> u_id = (if truthy_int (ou_id u) then ou_id u else Some (synth_uid ev (fst iu))),
        u_username = ou_username u,
        u_password_hash = ou_password u,
        u_name = ou_name u,
        u_role = ou_role u,
        u_permissions = (case ou_permissions u of
                           None \<Rightarrow> getDefaultPermissions (ou_role u)
                         | Some p \<Rightarrow> p),
        u_created = or_else (ou_created u) (now ev),
        u_created_by = Some (or_else (ou_createdBy u) ''system''),
        u_last_login = (case ou_lastLogin u of
                          None \<Rightarrow> None
                        | Some l \<Rightarrow> if l = [] then None else Some l),
        u_active = (ou_active u \<noteq> Some False) \<rparr>)"

text \<open>
  \<open>transformData\<close>. The object it returns has two new, empty arrays for
  \<open>backup_history\<close> and \<open>audit_log\<close>: the references 0 and 0 into the heap of the
  \<open>StorageManager\<close> that \<open>saveNewData\<close> creates for it.
\<close>

definition transformData :: "env \<Rightarrow> old_data \<Rightarrow> error + snapshot" where
  "transformData ev oldData =
     (case collect (map (transform_member ev (o_ledger oldData))
                     (case o_members oldData of None \<Rightarrow> [] | Some ms \<Rightarrow> ms)) of
        Inl e \<Rightarrow> Inl e
      | Inr cs \<Rightarrow>
          let ts = map (transform_entry ev)
                     (case o_ledger oldData of None \<Rightarrow> [] | Some l \<Rightarrow> enumerate 0 l);
              us = map (transform_user ev)
                     (case o_users oldData of None \<Rightarrow> [] | Some l \<Rightarrow> enumerate 0 l)
          in Inr \<lparr> settings = overlay getDefaultSettings
                                  (case o_settings oldData of None \<Rightarrow> [] | Some s \<Rightarrow> s),
                   users = us, customers = cs, transactions = ts, loans = [],
                   backup_history = 0, audit_log = 0,
                   metadata =
                     \<lparr> total_customers = length cs,
                       total_transactions = length ts,
                       total_savings = migrator_calculateTotalSavings cs,
                       total_loans = 0,
                       last_customer_id = (if truthy_int (o_last_id oldData)
                                           then the (o_last_id oldData) else 100),
                       last_transaction_id = 1000,
                       last_updated = now ev,
                       migration_version = Some ''2.2_to_2.3'',
                       migration_date = Some (now ev) \<rparr> \<rparr>)"

definition isAlreadyMigrated :: "localStorage \<Rightarrow> bool" where
  "isAlreadyMigrated ls = (obata_v2_settings ls \<noteq> None \<or> obata_v2_archive_v22 ls \<noteq> None)"

text \<open>The object that \<open>loadOldData\<close> and \<open>archiveOldData\<close> collect from the six old keys.\<close>

definition old_items :: "localStorage \<Rightarrow> old_data" where
  "old_items ls =
     \<lparr> o_auth = obata_auth ls, o_members = obata_members ls, o_ledger = obata_ledger ls,
       o_last_id = obata_last_id ls, o_users = obata_users ls,
       o_settings = obata_settings ls \<rparr>"

definition has_keys :: "old_data \<Rightarrow> bool" where
  "has_keys d = (o_auth d \<noteq> None \<or> o_members d \<noteq> None \<or> o_ledger d \<noteq> None \<or>
                 o_last_id d \<noteq> None \<or> o_users d \<noteq> None \<or> o_settings d \<noteq> None)"

definition loadOldData :: "localStorage \<Rightarrow> old_data option" where
  "loadOldData ls = (if has_keys (old_items ls) then Some (old_items ls) else None)"

definition saveNewData :: "env \<Rightarrow> snapshot \<Rightarrow> localStorage \<Rightarrow> localStorage" where
  "saveNewData ev d ls =
     storage (snd (saveAllData ev None
                     \<lparr> currentData = Some 0, objs = [d], hists = [[]], audits = [[]],
                       storage = ls \<rparr>))"

definition archiveOldData :: "localStorage \<Rightarrow> localStorage" where
  "archiveOldData ls =
     ls\<lparr> obata_auth := None, obata_members := None, obata_ledger := None,
         obata_last_id := None, obata_users := None, obata_settings := None,
         obata_v2_archive_v22 := Some (old_items ls) \<rparr>"

text \<open>
  \<open>migrate\<close>: the guard, the load, the transformation (an exception is caught and
  reported as \<open>false\<close>, before anything is written), the save and the archive.
\<close>

definition migrate :: "env \<Rightarrow> localStorage \<Rightarrow> bool \<times> localStorage" where
  "migrate ev ls =
     (if isAlreadyMigrated ls then (True, ls)
      else case loadOldData ls of
             None \<Rightarrow> (True, ls)
           | Some oldData \<Rightarrow>
               (case transformData ev oldData of
                  Inl e \<Rightarrow> (False, ls)
                | Inr newData \<Rightarrow> (True, archiveOldData (saveNewData ev newData ls))))"

section \<open>Snapshot Store: backups, export, import and restore\<close>

definition createDefaultData :: "env \<Rightarrow> ref \<Rightarrow> ref \<Rightarrow> snapshot" where
  "createDefaultData ev h a =
     \<lparr> settings = getDefaultSettings, users = getDefaultUsers ev, customers = [],
       transactions = [], loans = [], backup_history = h, audit_log = a,
       metadata = getDefaultMetadata ev \<rparr>"

text \<open>The empty store: the default data with its two new arrays, nothing persisted.\<close>

definition new_store :: "env \<Rightarrow> state" where
  "new_store ev =
     \<lparr> currentData = Some 0, objs = [createDefaultData ev 0 0], hists = [[]], audits = [[]],
       storage = empty_storage \<rparr>"

text \<open>
  \<open>createBackup(type)\<close>. The backup embeds a shallow copy of the live snapshot: a new
  object with the same properties, so with the same two arrays. The backup is put in
  front of the live history array in place, which the copy shares; past 50 entries the
  live snapshot gets a new, truncated array (\<open>push_backup\<close>: the copy at the next free
  reference, the \<open>unshift\<close> and the \<open>slice\<close>). The result is \<open>None\<close> for \<open>null\<close>: an
  exception was caught, be it the \<open>TypeError\<close> of a missing snapshot (before any
  change) or the one of \<open>JSON.stringify\<close> in \<open>save\<close> (after the change in memory).
\<close>

definition new_backup :: "env \<Rightarrow> string \<Rightarrow> state \<Rightarrow> snapshot \<Rightarrow> backup" where
  "new_backup ev ty st sd =
     Backup ty (now ev) (length (objs st))
       \<lparr> n_customers = length (customers sd), n_transactions = length (transactions sd),
         n_users = length (users sd) \<rparr>"

definition push_backup :: "backup \<Rightarrow> ref \<Rightarrow> snapshot \<Rightarrow> state \<Rightarrow> state" where
  "push_backup bk r sd st =
     (let h = backup_history sd;
          arr = bk # hist_at st h;
          st1 = st\<lparr>objs := objs st @ [sd], hists := (hists st)[h := arr]\<rparr>
      in if length arr > 50
         then st1\<lparr>hists := hists st1 @ [take 50 arr],
                  objs := (objs st1)[r := sd\<lparr>backup_history := length (hists st1)\<rparr>]\<rparr>
         else st1)"

definition createBackup :: "env \<Rightarrow> string \<Rightarrow> state \<Rightarrow> backup option \<times> state" where
  "createBackup ev ty st =
     (case live st of
        None \<Rightarrow> (None, st)
      | Some (r, sd) \<Rightarrow>
          let bk = new_backup ev ty st sd;
              st2 = push_backup bk r sd st
          in case stringify_history st2 (backup_history (objs st2 ! r)) of
               None \<Rightarrow> (None, st2)
             | Some t \<Rightarrow>
                 (Some bk, st2\<lparr>storage := (storage st2)\<lparr>obata_v2_backup_history := Some t\<rparr>\<rparr>))"

text \<open>The container that \<open>JSON.parse\<close> gives for an exported snapshot.\<close>

fun exported_data :: "tsnapshot \<Rightarrow> import_data" where
  "exported_data (TSnapshot se us cs ts ls bh al md) =
     \<lparr> i_settings = Val se, i_users = Val us, i_customers = Val cs,
       i_transactions = Val ts, i_loans = Val ls, i_backup_history = Val bh,
       i_audit_log = Val al, i_metadata = Val md \<rparr>"

text \<open>
  \<open>generateChecksum\<close>: \<open>hash = ((hash << 5) - hash) + char; hash = hash & hash\<close> over the
  code units of the text, in 32 bits, printed by \<open>toString(16)\<close> as a signed number.
\<close>

definition generateChecksum_hash :: "nat list \<Rightarrow> 32 word" where
  "generateChecksum_hash str = foldl (\<lambda>hash c. (push_bit 5 hash - hash) + of_nat c) 0 str"

fun hex_digits :: "nat \<Rightarrow> string" where
  "hex_digits n =
     (if n < 16 then [''0123456789abcdef'' ! n]
      else hex_digits (n div 16) @ [''0123456789abcdef'' ! (n mod 16)])"

definition generateChecksum :: "nat list \<Rightarrow> string" where
  "generateChecksum str =
     (let h = sint (generateChecksum_hash str)
      in if h < 0 then CHR ''-'' # hex_digits (nat (- h)) else hex_digits (nat h))"

text \<open>
  \<open>logBackup(type, backupData)\<close>: the log entry is put in front of the live history
  array, which is then persisted; the array is not truncated.
\<close>

definition logBackup :: "env \<Rightarrow> string \<Rightarrow> tsnapshot option \<Rightarrow> state \<Rightarrow> error option \<times> state" where
  "logBackup ev ty backupData st =
     (case backupData of
        None \<Rightarrow> (Some TypeError, st)
      | Some (TSnapshot se us cs ts ls bh al md) \<Rightarrow>
          (case live st of
             None \<Rightarrow> (Some TypeError, st)
           | Some (r, sd) \<Rightarrow>
               let backupLog = BackupLog ty (now ev) (json_size ev backupData)
                                 \<lparr> n_customers = length cs, n_transactions = length ts,
                                   n_users = length us \<rparr>;
                   h = backup_history sd;
                   st1 = st\<lparr>hists := (hists st)[h := backupLog # hist_at st h]\<rparr>
               in case stringify_history st1 h of
                    None \<Rightarrow> (Some TypeError, st1)
                  | Some t \<Rightarrow>
                      (None, st1\<lparr>storage := (storage st1)\<lparr>obata_v2_backup_history := Some t\<rparr>\<rparr>)))"

text \<open>
  \<open>exportAllData\<close>: the result, the container offered for download (if the code got
  that far) and the state. \<open>JSON.stringify\<close> of the live snapshot throws on a cycle,
  before anything is exported; without a live snapshot the container is written with
  \<open>data: null\<close> and \<open>logBackup\<close> throws.
\<close>

definition exportAllData :: "env \<Rightarrow> state \<Rightarrow> bool \<times> container option \<times> state" where
  "exportAllData ev st =
     (case currentData st of
        None \<Rightarrow>
          (False,
           Some \<lparr> schema_version = Some ''2.3'', export_date = Some (now ev),
                  backup_date = None, data = None,
                  checksum = Some (generateChecksum (json_text ev None)) \<rparr>,
           st)
      | Some r \<Rightarrow>
          (case stringify_snapshot st [] r of
             None \<Rightarrow> (False, None, st)
           | Some t \<Rightarrow>
               let c = \<lparr> schema_version = Some ''2.3'', export_date = Some (now ev),
                         backup_date = None, data = Some (exported_data t),
                         checksum = Some (generateChecksum (json_text ev (Some t))) \<rparr>
               in case logBackup ev ''manual'' (Some t) st of
                    (Some e, st1) \<Rightarrow> (False, Some c, st1)
                  | (None, st1) \<Rightarrow> (True, Some c, st1)))"

text \<open>
  \<open>importData\<close>, from the parsed container on: \<open>None\<close> when the promise resolves, the
  error it is rejected with otherwise. The validation comes before any change; the
  backup, the merge, the save and the audit entry follow. A live snapshot that is
  missing and a collection that \<open>mergeData\<close> needs and the container lacks throw a
  \<open>TypeError\<close> after the backup.
\<close>

definition importData :: "env \<Rightarrow> container \<Rightarrow> state \<Rightarrow> error option \<times> state" where
  "importData ev importedData st =
     (if \<not> validateImportData importedData then (Some InvalidFormat, st)
      else
        let st1 = snd (createBackup ev ''pre_import_backup'' st)
        in case live st1 of
             None \<Rightarrow> (Some TypeError, st1)
           | Some (r, sd) \<Rightarrow>
               (case mergeData sd (the (data importedData)) of
                  Inl e \<Rightarrow> (Some e, st1)
                | Inr m \<Rightarrow>
                    let st2 = st1\<lparr>objs := objs st1 @ [m],
                                  currentData := Some (length (objs st1))\<rparr>;
                        st3 = snd (saveAllData ev None st2)
                    in case logAudit ev ''DATA_IMPORTED''
                              [(''timestamp'', SStr (now ev)),
                               (''source'', SStr ''file''),
                               (''items_imported'',
                                  SNum (case i_metadata (the (data importedData)) of
                                          Val md \<Rightarrow> int (total_customers md)
                                        | _ \<Rightarrow> 0)),
                               (''user'', SStr ''system'')] st3 of
                         Inl e \<Rightarrow> (Some e, st3)
                       | Inr st4 \<Rightarrow> (None, st4)))"

text \<open>
  \<open>restoreBackup(backupIndex)\<close>: \<open>None\<close> for \<open>true\<close>, or the exception that was caught
  and answered with \<open>false\<close>. An entry that \<open>logBackup\<close> wrote has no \<open>data\<close>:
  the live snapshot becomes \<open>undefined\<close>, the save finds nothing to save and
  \<open>logAudit\<close> throws.
\<close>

definition restoreBackup :: "env \<Rightarrow> int \<Rightarrow> state \<Rightarrow> error option \<times> state" where
  "restoreBackup ev backupIndex st =
     (case live st of
        None \<Rightarrow> (Some TypeError, st)
      | Some (r, sd) \<Rightarrow>
          let h = hist_at st (backup_history sd)
          in if \<not> (0 \<le> backupIndex \<and> backupIndex < int (length h)) then (Some NotFound, st)
             else
               let bk = h ! nat backupIndex;
                   st1 = snd (createBackup ev ''pre_restore_backup'' st);
                   st2 = st1\<lparr>currentData := (case bk of
                                                 Backup ty ts d cn \<Rightarrow> Some d
                                               | BackupLog ty ts sz cn \<Rightarrow> None)\<rparr>;
                   st3 = snd (saveAllData ev None st2)
               in case logAudit ev ''BACKUP_RESTORED''
                         [(''timestamp'', SStr (now ev)),
                          (''backup_timestamp'', SStr (b_timestamp bk)),
                          (''user'', SStr ''system'')] st3 of
                    Inl e \<Rightarrow> (Some e, st3)
                  | Inr st4 \<Rightarrow> (None, st4))"

text \<open>The live snapshot and the array its \<open>backup_history\<close> and \<open>audit_log\<close> point to.\<close>

definition live_snapshot :: "state \<Rightarrow> snapshot option" where
  "live_snapshot st = map_option snd (live st)"

definition live_history :: "state \<Rightarrow> backup list" where
  "live_history st =
     (case live st of None \<Rightarrow> [] | Some (r, sd) \<Rightarrow> hist_at st (backup_history sd))"

definition live_audit_log :: "state \<Rightarrow> audit_entry list" where
  "live_audit_log st =
     (case live st of None \<Rightarrow> [] | Some (r, sd) \<Rightarrow> audit_at st (audit_log sd))"

text \<open>A run of calls of \<open>createBackup\<close>, one for each tag of the list.\<close>

fun createBackups :: "env \<Rightarrow> string list \<Rightarrow> state \<Rightarrow> state" where
  "createBackups ev [] st = st"
| "createBackups ev (ty # tys) st = createBackups ev tys (snd (createBackup ev ty st))"

text \<open>
  An export followed by the import of the exported container into another store: the
  outcome of the import, if the export succeeded.
\<close>

definition export_import :: "env \<Rightarrow> state \<Rightarrow> state \<Rightarrow> (error option \<times> state) option" where
  "export_import ev st store =
     (case exportAllData ev st of
        (True, Some c, st') \<Rightarrow> Some (importData ev c store)
      | _ \<Rightarrow> None)"

text \<open>The live snapshot of the importing store after the round trip, if both calls succeeded.\<close>

definition roundtrip_snapshot :: "env \<Rightarrow> state \<Rightarrow> state \<Rightarrow> snapshot option" where
  "roundtrip_snapshot ev st store =
     (case export_import ev st store of
        Some (None, st') \<Rightarrow> live_snapshot st'
      | _ \<Rightarrow> None)"

section \<open>Example data\<close>

definition test_env :: env where
  "test_env = \<lparr> now = ''2026-01-26T10:00:00.000Z'', user_agent = ''agent'',
                synth_txid = (\<lambda>i. 1769421600000 + int i), synth_uid = (\<lambda>i. 500 + int i),
                json_text = (\<lambda>t. [123, 125]), json_size = (\<lambda>t. 64) \<rparr>"

definition ada :: customer where
  "ada = \<lparr> c_id = Some 7, c_name = ''Ada'', c_phone = ''123'', c_email = [],
           c_address = [], c_date_joined = ''2026-01-26'', c_status = ''active'',
           c_balance = None, c_balance_savings = 30, c_balance_loans = 0,
           c_closure_date = None, c_closure_reason = [], c_created_by = ''system'',
           c_last_updated = ''2026-01-26T10:00:00.000Z'' \<rparr>"

definition zero_metadata :: metadata where
  "zero_metadata =
     \<lparr> total_customers = 0, total_transactions = 0, total_savings = 0, total_loans = 0,
       last_customer_id = 100, last_transaction_id = 1000, last_updated = [],
       migration_version = None, migration_date = None \<rparr>"

definition ada_snapshot :: snapshot where
  "ada_snapshot =
     \<lparr> settings = [], users = [], customers = [ada], transactions = [], loans = [],
       backup_history = 0, audit_log = 0, metadata = zero_metadata \<rparr>"

definition ada_state :: state where
  "ada_state = \<lparr> currentData = Some 0, objs = [ada_snapshot], hists = [[]], audits = [[]],
                 storage = empty_storage \<rparr>"

definition bola :: customer where
  "bola = ada\<lparr>c_id := Some 8, c_name := ''Bola'', c_balance_savings := 5\<rparr>"

definition admin_user :: user where
  "admin_user =
     \<lparr> u_id = Some 1, u_username = Some ''Admin'', u_password_hash = Some ''admin123'',
       u_name = Some ''Administrator'', u_role = Some ''admin'', u_permissions = [],
       u_created = ''2026-01-26T10:00:00.000Z'', u_created_by = None, u_last_login = None,
       u_active = True \<rparr>"

definition loan1 :: loan where
  "loan1 = \<lparr> l_loanId = Some 1, l_status = ''active'', l_amount_outstanding = 400 \<rparr>"

definition tx1 :: transaction where
  "tx1 = \<lparr> t_txId = Some 1001, t_customer_id = Some 7, t_type = ''DAILY'', t_amount = 50,
           t_date = ''2026-01-20'', t_value_date = ''2026-01-20'', t_status = ''completed'',
           t_processed_by = ''system'', t_reference = [], t_notes = [],
           t_reversal_of = None \<rparr>"

text \<open>A snapshot to merge into, and imported data that collides with it on every key.\<close>

definition shop_snapshot :: snapshot where
  "shop_snapshot =
     \<lparr> settings = [(''theme'', SStr ''light''), (''language'', SStr ''en'')],
       users = [admin_user], customers = [ada], transactions = [tx1], loans = [loan1],
       backup_history = 0, audit_log = 0, metadata = zero_metadata \<rparr>"

definition shop_import :: import_data where
  "shop_import =
     \<lparr> i_settings = Val [(''theme'', SStr ''dark'')],
       i_users = Val [admin_user\<lparr>u_password_hash := Some ''changed''\<rparr>,
                       admin_user\<lparr>u_id := Some 2, u_username := Some ''Kemi''\<rparr>],
       i_customers = Val [ada\<lparr>c_name := ''Ada Obi''\<rparr>, bola],
       i_transactions = Val [tx1\<lparr>t_amount := 70\<rparr>, tx1\<lparr>t_txId := Some 1002\<rparr>],
       i_loans = Val [loan1\<lparr>l_amount_outstanding := 0\<rparr>, loan1\<lparr>l_loanId := Some 2\<rparr>],
       i_backup_history = Undefined, i_audit_log = Undefined, i_metadata = Undefined \<rparr>"

text \<open>The old data of the example: one member and two ledger entries.\<close>

definition ada_member :: member where
  "ada_member =
     \<lparr> m_name = Some ''Ada'', m_phone = Some ''123'', m_email = None, m_address = None,
       m_date = None, m_active = None, m_closureDate = None, m_closureReason = None,
       m_createdBy = None \<rparr>"

definition entry_daily :: ledger_entry where
  "entry_daily =
     \<lparr> e_txId = None, e_cust = Some ''7'', e_type = ''DAILY'', e_amount = 50, e_date = None,
       e_valueDate = None, e_reversed = False, e_processedBy = None, e_ref = None,
       e_notes = None \<rparr>"

definition entry_withdrawal :: ledger_entry where
  "entry_withdrawal = entry_daily\<lparr>e_type := ''WITHDRAWAL'', e_amount := 20\<rparr>"

definition ada_old :: old_data where
  "ada_old =
     \<lparr> o_auth = None, o_members = Some [(''7'', ada_member)],
       o_ledger = Some [entry_daily, entry_withdrawal], o_last_id = None, o_users = None,
       o_settings = None \<rparr>"

definition old_storage :: localStorage where
  "old_storage =
     empty_storage\<lparr>obata_members := Some [(''7'', ada_member)],
                    obata_ledger := Some [entry_daily, entry_withdrawal]\<rparr>"

text \<open>Containers: one of an older schema, one with the two collections only.\<close>

definition bare_data :: import_data where
  "bare_data =
     \<lparr> i_settings = Undefined, i_users = Undefined, i_customers = Val [],
       i_transactions = Val [], i_loans = Undefined, i_backup_history = Undefined,
       i_audit_log = Undefined, i_metadata = Undefined \<rparr>"

definition bare_container :: container where
  "bare_container =
     \<lparr> schema_version = Some ''2.3'', export_date = None, backup_date = None,
       data = Some bare_data, checksum = None \<rparr>"

definition old_container :: container where
  "old_container =
     \<lparr> schema_version = Some ''2.2'', export_date = Some ''2025-12-01T08:00:00.000Z'',
       backup_date = None, data = Some shop_import, checksum = Some ''17862'' \<rparr>"

definition shop_container :: container where
  "shop_container = old_container\<lparr>schema_version := Some ''2.3'', checksum := None\<rparr>"

text \<open>The shop's container with \<open>"customers": null\<close>.\<close>

definition null_data :: import_data where
  "null_data = shop_import\<lparr>i_customers := Null\<rparr>"

definition null_container :: container where
  "null_container = shop_container\<lparr>data := Some null_data\<rparr>"

text \<open>A store whose history holds 50 entries, and a store with the shop's snapshot.\<close>

definition log_entry :: backup where
  "log_entry = BackupLog ''manual'' ''2026-01-25T09:00:00.000Z'' 64
                 \<lparr> n_customers = 1, n_transactions = 0, n_users = 0 \<rparr>"

definition full_state :: state where
  "full_state = ada_state\<lparr>hists := [replicate 50 log_entry]\<rparr>"

definition shop_state :: state where
  "shop_state = \<lparr> currentData = Some 0, objs = [shop_snapshot], hists = [[]], audits = [[]],
                  storage = empty_storage \<rparr>"

text \<open>The store after one export: the history holds the entry that \<open>logBackup\<close> wrote.\<close>

definition log_state :: state where
  "log_state =
     ada_state
       \<lparr>hists := [[BackupLog ''manual'' ''2026-01-26T10:00:00.000Z'' 64
                     \<lparr> n_customers = 1, n_transactions = 0, n_users = 0 \<rparr>]],
        storage := empty_storage
          \<lparr>obata_v2_backup_history :=
             Some [TBackupLog ''manual'' ''2026-01-26T10:00:00.000Z'' 64
                     \<lparr> n_customers = 1, n_transactions = 0, n_users = 0 \<rparr>]\<rparr>\<rparr>"

section \<open>Metadata derivation on save\<close>

lemma logAudit_keeps_metadata:
  "logAudit ev a d st = Inr st' \<Longrightarrow> r < length (objs st) \<Longrightarrow>
   metadata (objs st' ! r) = metadata (objs st ! r)"
  by (auto simp: logAudit_def live_def Let_def nth_list_update split: option.splits if_splits)

lemma saveAllData_metadata:
  "r < length (objs st) \<Longrightarrow>
   metadata (objs (snd (saveAllData ev (Some r) st)) ! r) = compute_metadata ev (objs st ! r)"
  by (auto simp: saveAllData_def Let_def split: option.splits sum.splits
           dest!: logAudit_keeps_metadata[where r = r])

lemma saveAllData_counts:
  "r < length (objs st) \<Longrightarrow>
   total_customers (metadata (objs (snd (saveAllData ev (Some r) st)) ! r))
     = length (customers (objs st ! r)) \<and>
   total_transactions (metadata (objs (snd (saveAllData ev (Some r) st)) ! r))
     = length (transactions (objs st ! r))"
  by (simp add: saveAllData_metadata compute_metadata_def)

text \<open>
  Claim C1. The metadata recomputed by a save has \<open>total_customers\<close> and
  \<open>total_transactions\<close> equal to the lengths of the collections
  (\<open>saveAllData_counts\<close>), but \<open>total_savings\<close> is not the sum of
  \<open>balance_savings\<close>: the store's \<open>calculateTotalSavings\<close> adds up the property
  \<open>balance\<close>, which the customers of this schema do not have. For the snapshot with
  the one customer Ada, whose \<open>balance_savings\<close> is 30, the save writes
  \<open>total_savings = 0\<close>, in memory and in \<open>localStorage\<close>, while the migrator's
  function of the same name gives 30.
\<close>

theorem C1_total_savings_reads_balance:
  "fst (saveAllData test_env None ada_state) = Some True \<and>
   total_savings (metadata (objs (snd (saveAllData test_env None ada_state)) ! 0)) = 0 \<and>
   map_option total_savings (obata_v2_metadata (storage (snd (saveAllData test_env None ada_state))))
     = Some 0 \<and>
   sum_list (map c_balance_savings (customers ada_snapshot)) = 30 \<and>
   migrator_calculateTotalSavings (customers ada_snapshot) = 30"
  by code_simp

section \<open>Merge-on-import: the loops against the wording\<close>

lemma find_key_None: "(find (\<lambda>c. key c = k) xs = None) = (k \<notin> key ` set xs)"
  by (auto simp: find_None_iff)

lemma first_by_seen_set: "set s = set s' \<Longrightarrow> first_by key s xs = first_by key s' xs"
proof (induction xs arbitrary: s s')
  case Nil
  show ?case by simp
next
  case (Cons x xs)
  have "first_by key (key x # s) xs = first_by key (key x # s') xs"
    by (rule Cons.IH) (simp add: Cons.prems)
  with Cons.prems Cons.IH[of s s'] show ?case by simp
qed

lemma merge_by_keyed_union: "merge_by key e i = keyed_union key e i"
  unfolding keyed_union_def
proof (induction i arbitrary: e)
  case Nil
  show ?case by simp
next
  case (Cons x xs)
  show ?case
  proof (cases "key x \<in> key ` set e")
    case True
    then show ?thesis by (simp add: Cons.IH find_key_None)
  next
    case False
    have "first_by key (map key (e @ [x])) xs = first_by key (key x # map key e) xs"
      by (rule first_by_seen_set) auto
    with False show ?thesis by (simp add: Cons.IH find_key_None)
  qed
qed

lemma findIndex_bounds: "- 1 \<le> findIndex P xs \<and> findIndex P xs < int (length xs)"
  by (induction xs) (auto simp: Let_def)

lemma findIndex_none: "\<forall>x\<in>set xs. \<not> P x \<Longrightarrow> findIndex P xs = - 1"
  by (induction xs) (auto simp: Let_def)

lemma findIndex_some: "\<exists>x\<in>set xs. P x \<Longrightarrow> 0 \<le> findIndex P xs"
proof (induction xs)
  case Nil
  then show ?case by simp
next
  case (Cons a xs)
  show ?case
  proof (cases "P a")
    case True
    then show ?thesis by simp
  next
    case False
    with Cons.prems have "\<exists>x\<in>set xs. P x" by simp
    then have "0 \<le> findIndex P xs" by (rule Cons.IH)
    with False show ?thesis by (simp add: Let_def)
  qed
qed

lemma findIndex_neg_iff: "(findIndex P xs < 0) = (\<forall>x\<in>set xs. \<not> P x)"
  using findIndex_none[of xs P] findIndex_some[of xs P] by fastforce

lemma findIndex_append:
  "findIndex P (xs @ ys) =
     (if \<exists>x\<in>set xs. P x then findIndex P xs
      else if findIndex P ys < 0 then -1 else int (length xs) + findIndex P ys)"
proof (induction xs)
  case Nil
  show ?case using findIndex_bounds[of P ys] by (auto simp: Let_def)
next
  case (Cons a xs)
  show ?case
  proof (cases "P a")
    case True
    then show ?thesis by simp
  next
    case False
    with Cons.IH findIndex_some[of xs P] findIndex_some[of ys P] findIndex_neg_iff[of P ys]
    show ?thesis by (auto simp: Let_def)
  qed
qed

lemma findIndex_first:
  "(findIndex (\<lambda>t. key t = key x) (pre @ x # ys) = int (length pre)) = (key x \<notin> key ` set pre)"
proof (cases "\<exists>c\<in>set pre. key c = key x")
  case True
  then have "key x \<in> key ` set pre" by (metis image_eqI)
  with True findIndex_bounds[of "\<lambda>t. key t = key x" pre] show ?thesis
    by (simp add: findIndex_append)
next
  case False
  then have "key x \<notin> key ` set pre" by (metis imageE)
  with False show ?thesis by (simp add: findIndex_append)
qed

lemma dedup_suffix:
  "map snd (filter (\<lambda>(i, v). findIndex (\<lambda>t. key t = key v) (pre @ xs) = int i)
              (enumerate (length pre) xs))
   = first_by key (map key pre) xs"
proof (induction xs arbitrary: pre)
  case Nil
  show ?case by simp
next
  case (Cons x xs)
  have ih: "map snd (filter (\<lambda>(i, v). findIndex (\<lambda>t. key t = key v) (pre @ x # xs) = int i)
              (enumerate (Suc (length pre)) xs))
            = first_by key (map key (pre @ [x])) xs"
    using Cons.IH[of "pre @ [x]"] by simp
  show ?case
  proof (cases "key x \<in> key ` set pre")
    case True
    have "first_by key (map key (pre @ [x])) xs = first_by key (map key pre) xs"
      by (rule first_by_seen_set) (use True in auto)
    with True ih show ?thesis by (simp add: findIndex_first)
  next
    case False
    have "first_by key (map key (pre @ [x])) xs = first_by key (key x # map key pre) xs"
      by (rule first_by_seen_set) auto
    with False ih show ?thesis by (simp add: findIndex_first)
  qed
qed

lemma dedup_by_first_by: "dedup_by key a = first_by key [] a"
  using dedup_suffix[of key "[]" a] by (simp add: dedup_by_def)

lemma first_by_keys_distinct:
  "distinct (map key (first_by key seen xs)) \<and> key ` set (first_by key seen xs) \<inter> set seen = {}"
proof (induction xs arbitrary: seen)
  case Nil
  show ?case by simp
next
  case (Cons x xs)
  from Cons.IH[of seen] Cons.IH[of "key x # seen"] show ?case by auto
qed

lemma keyed_union_distinct:
  "distinct (map key e) \<Longrightarrow> distinct (map key (keyed_union key e i))"
  using first_by_keys_distinct[of key "map key e" i]
  by (auto simp: keyed_union_def)

lemma lookup_first_by:
  "lookup_by key (first_by key seen xs) k = (if k \<in> set seen then None else lookup_by key xs k)"
proof (induction xs arbitrary: seen)
  case Nil
  show ?case by (simp add: lookup_by_def)
next
  case (Cons x xs)
  from Cons.IH[of seen] Cons.IH[of "key x # seen"] show ?case
    by (auto simp: lookup_by_def)
qed

lemma find_append_case:
  "find P (xs @ ys) = (case find P xs of Some x \<Rightarrow> Some x | None \<Rightarrow> find P ys)"
  by (induction xs) auto

lemma lookup_keyed_union:
  "lookup_by key (keyed_union key e i) k =
     (case lookup_by key e k of Some c \<Rightarrow> Some c | None \<Rightarrow> lookup_by key i k)"
proof (cases "lookup_by key e k")
  case None
  then have "k \<notin> key ` set e" by (auto simp: lookup_by_def find_None_iff)
  with None show ?thesis
    by (simp add: keyed_union_def lookup_by_def find_append_case lookup_first_by[unfolded lookup_by_def])
next
  case (Some c)
  then show ?thesis by (simp add: keyed_union_def lookup_by_def find_append_case)
qed

lemma map_of_overlay:
  "distinct (map fst i) \<Longrightarrow> map_of (overlay e i) = map_of e ++ map_of i"
  unfolding overlay_def
proof (induction i arbitrary: e)
  case Nil
  show ?case by simp
next
  case (Cons p ps)
  obtain k v where p: "p = (k, v)" by (cases p)
  from Cons.prems p have fresh: "map_of ps k = None" and d: "distinct (map fst ps)"
    by (auto simp: map_of_eq_None_iff)
  have "map_of (fold (\<lambda>(k, v). AList.update k v) ps (AList.update k v e))
          = map_of (AList.update k v e) ++ map_of ps"
    by (rule Cons.IH[OF d])
  also have "\<dots> = (map_of e)(k \<mapsto> v) ++ map_of ps"
    by (simp only: AList.update_conv')
  also have "\<dots> = map_of e ++ (map_of ps)(k \<mapsto> v)"
    using fresh by (auto simp: map_add_def fun_eq_iff split: option.splits)
  finally show ?case
    by (simp only: p fold_Cons map_of.simps fst_conv snd_conv case_prod_conv comp_apply)
qed

lemma mergeData_Inr:
  assumes "i_customers I = Val ic" "i_transactions I = Val it" "i_users I = Val iu"
    "i_loans I = Val il"
  shows "mergeData E I =
     Inr (E\<lparr>customers := keyed_union c_id (customers E) ic,
            transactions := keyed_union t_txId (transactions E) it,
            users := keyed_union u_username (users E) iu,
            settings := overlay (settings E) (case i_settings I of Val s \<Rightarrow> s | _ \<Rightarrow> []),
            loans := first_by l_loanId [] (loans E @ il)\<rparr>)"
  using assms by (simp add: mergeData_def merge_by_keyed_union dedup_by_first_by)

text \<open>
  Claim C2. When the existing snapshot has pairwise distinct customer ids, transaction
  \<open>txId\<close>s and usernames, and the imported data carries the collections that
  \<open>mergeData\<close> iterates over (as arrays), the merge returns a snapshot in which no two customers
  share an id, no two transactions a \<open>txId\<close> and no two users a username. Nothing is
  asked of the imported collections: duplicates among them are dropped by the loop.
\<close>

theorem C2_merge_keeps_keys_unique:
  assumes "distinct (map c_id (customers E))"
    and "distinct (map t_txId (transactions E))"
    and "distinct (map u_username (users E))"
    and "is_array (i_customers I)" and "is_array (i_transactions I)"
    and "is_array (i_users I)" and "is_array (i_loans I)"
  shows "\<exists>M. mergeData E I = Inr M \<and>
             distinct (map c_id (customers M)) \<and>
             distinct (map t_txId (transactions M)) \<and>
             distinct (map u_username (users M))"
proof -
  from assms(4-7) obtain ic it iu il where
    i: "i_customers I = Val ic" "i_transactions I = Val it" "i_users I = Val iu"
       "i_loans I = Val il"
    by (auto simp: is_array_def split: field.splits)
  show ?thesis
    by (simp add: mergeData_Inr[OF i] keyed_union_distinct assms(1-3))
qed

theorem C2_merge_keeps_keys_unique_witness:
  "distinct (map c_id (customers shop_snapshot)) \<and>
   distinct (map t_txId (transactions shop_snapshot)) \<and>
   distinct (map u_username (users shop_snapshot)) \<and>
   is_array (i_customers shop_import) \<and> is_array (i_transactions shop_import) \<and>
   is_array (i_users shop_import) \<and> is_array (i_loans shop_import) \<and>
   (\<exists>M. mergeData shop_snapshot shop_import = Inr M \<and>
        distinct (map c_id (customers M)) \<and>
        distinct (map t_txId (transactions M)) \<and>
        distinct (map u_username (users M)))"
proof -
  have h1: "distinct (map c_id (customers shop_snapshot))"
    and h2: "distinct (map t_txId (transactions shop_snapshot))"
    and h3: "distinct (map u_username (users shop_snapshot))"
    by (simp_all add: shop_snapshot_def)
  have h4: "is_array (i_customers shop_import)" and h5: "is_array (i_transactions shop_import)"
    and h6: "is_array (i_users shop_import)" and h7: "is_array (i_loans shop_import)"
    by (simp_all add: shop_import_def is_array_def)
  from C2_merge_keeps_keys_unique[OF h1 h2 h3 h4 h5 h6 h7] h1 h2 h3 h4 h5 h6 h7
  show ?thesis by blast
qed

text \<open>
  Claim C5. For an existing snapshot \<open>E\<close> and imported data \<open>I\<close> that carries the five
  collections (its settings with distinct keys, as every parsed object has), the merge
  returns a snapshot whose customers are the union of both keyed by id in which the
  record of \<open>E\<close> wins (under every key the merged collection holds the record of \<open>E\<close>
  if there is one, else the record of \<open>I\<close>), likewise the transactions keyed by
  \<open>txId\<close> and the users keyed by username; whose settings are those of \<open>E\<close> overlaid
  by those of \<open>I\<close>; and whose loans are the loans of \<open>E\<close> followed by those of \<open>I\<close>,
  keeping the first occurrence of every \<open>loanId\<close>.
\<close>

theorem C5_merge_policy:
  assumes "i_customers I = Val ic" and "i_transactions I = Val it"
    and "i_users I = Val iu" and "i_loans I = Val il"
    and "i_settings I = Val is" and "distinct (map fst is)"
  shows "\<exists>M. mergeData E I = Inr M \<and>
     customers M = keyed_union c_id (customers E) ic \<and>
     (\<forall>k. lookup_by c_id (customers M) k =
            (case lookup_by c_id (customers E) k of
               Some c \<Rightarrow> Some c | None \<Rightarrow> lookup_by c_id ic k)) \<and>
     transactions M = keyed_union t_txId (transactions E) it \<and>
     (\<forall>k. lookup_by t_txId (transactions M) k =
            (case lookup_by t_txId (transactions E) k of
               Some t \<Rightarrow> Some t | None \<Rightarrow> lookup_by t_txId it k)) \<and>
     users M = keyed_union u_username (users E) iu \<and>
     (\<forall>k. lookup_by u_username (users M) k =
            (case lookup_by u_username (users E) k of
               Some u \<Rightarrow> Some u | None \<Rightarrow> lookup_by u_username iu k)) \<and>
     map_of (settings M) = map_of (settings E) ++ map_of is \<and>
     loans M = first_by l_loanId [] (loans E @ il)"
proof -
  let ?M = "E\<lparr>customers := keyed_union c_id (customers E) ic,
              transactions := keyed_union t_txId (transactions E) it,
              users := keyed_union u_username (users E) iu,
              settings := overlay (settings E) is,
              loans := first_by l_loanId [] (loans E @ il)\<rparr>"
  have m: "mergeData E I = Inr ?M"
    using mergeData_Inr[OF assms(1-4), of E] assms(5) by simp
  have s: "map_of (settings ?M) = map_of (settings E) ++ map_of is"
    using map_of_overlay[OF assms(6)] by simp
  have "customers ?M = keyed_union c_id (customers E) ic"
    and "transactions ?M = keyed_union t_txId (transactions E) it"
    and "users ?M = keyed_union u_username (users E) iu"
    and "loans ?M = first_by l_loanId [] (loans E @ il)"
    by simp_all
  with m s show ?thesis
    by (simp only: lookup_keyed_union sum.inject simp_thms ex_simps)
qed

theorem C5_merge_policy_witness:
  "\<exists>M. mergeData shop_snapshot shop_import = Inr M \<and>
     map c_name (customers M) = [''Ada'', ''Bola''] \<and>
     map t_amount (transactions M) = [50, 50] \<and>
     map u_password_hash (users M) = [Some ''admin123'', Some ''admin123''] \<and>
     map_of (settings M) ''theme'' = Some (SStr ''dark'') \<and>
     map_of (settings M) ''language'' = Some (SStr ''en'') \<and>
     map l_amount_outstanding (loans M) = [400, 400]"
proof -
  have h: "i_customers shop_import = Val [ada\<lparr>c_name := ''Ada Obi''\<rparr>, bola]"
    "i_transactions shop_import = Val [tx1\<lparr>t_amount := 70\<rparr>, tx1\<lparr>t_txId := Some 1002\<rparr>]"
    "i_users shop_import = Val [admin_user\<lparr>u_password_hash := Some ''changed''\<rparr>,
                                 admin_user\<lparr>u_id := Some 2, u_username := Some ''Kemi''\<rparr>]"
    "i_loans shop_import = Val [loan1\<lparr>l_amount_outstanding := 0\<rparr>, loan1\<lparr>l_loanId := Some 2\<rparr>]"
    "i_settings shop_import = Val [(''theme'', SStr ''dark'')]"
    "distinct (map fst [(''theme'', SStr ''dark'')])"
    by (simp_all add: shop_import_def)
  from C5_merge_policy[OF h, of shop_snapshot] obtain M where
    m: "mergeData shop_snapshot shop_import = Inr M"
    and c: "customers M = keyed_union c_id (customers shop_snapshot) [ada\<lparr>c_name := ''Ada Obi''\<rparr>, bola]"
    and t: "transactions M = keyed_union t_txId (transactions shop_snapshot) [tx1\<lparr>t_amount := 70\<rparr>, tx1\<lparr>t_txId := Some 1002\<rparr>]"
    and u: "users M = keyed_union u_username (users shop_snapshot) [admin_user\<lparr>u_password_hash := Some ''changed''\<rparr>,
                                 admin_user\<lparr>u_id := Some 2, u_username := Some ''Kemi''\<rparr>]"
    and s: "map_of (settings M) = map_of (settings shop_snapshot) ++ map_of [(''theme'', SStr ''dark'')]"
    and l: "loans M = first_by l_loanId [] (loans shop_snapshot @ [loan1\<lparr>l_amount_outstanding := 0\<rparr>, loan1\<lparr>l_loanId := Some 2\<rparr>])"
    by blast
  have "map c_name (customers M) = [''Ada'', ''Bola'']"
    unfolding c by (simp add: keyed_union_def shop_snapshot_def ada_def bola_def)
  moreover have "map t_amount (transactions M) = [50, 50]"
    unfolding t by (simp add: keyed_union_def shop_snapshot_def tx1_def)
  moreover have "map u_password_hash (users M) = [Some ''admin123'', Some ''admin123'']"
    unfolding u by (simp add: keyed_union_def shop_snapshot_def admin_user_def)
  moreover have "map_of (settings M) ''theme'' = Some (SStr ''dark'')"
    "map_of (settings M) ''language'' = Some (SStr ''en'')"
    unfolding s by (simp_all add: shop_snapshot_def)
  moreover have "map l_amount_outstanding (loans M) = [400, 400]"
    unfolding l by (simp add: shop_snapshot_def loan1_def)
  ultimately show ?thesis using m by (intro exI[of _ M]) simp
qed

section \<open>Migrator: balances\<close>

lemma savings_fold:
  "foldl (\<lambda>balance tx.
            if e_type tx \<in> set [''DAILY'', ''WEEKLY'', ''MONTHLY'']
            then balance + e_amount tx
            else if e_type tx = ''WITHDRAWAL'' then balance - e_amount tx
            else balance) b txs
   = b + sum_list (map e_amount
            (filter (\<lambda>tx. e_type tx \<in> {''DAILY'', ''WEEKLY'', ''MONTHLY''}) txs))
       - sum_list (map e_amount (filter (\<lambda>tx. e_type tx = ''WITHDRAWAL'') txs))"
  by (induction txs arbitrary: b) auto

text \<open>
  Claim C7. The migrator turns the old data of the example (member 7, Ada, with a DAILY
  entry of 50 and a WITHDRAWAL of 20) into exactly one customer, with id 7 and
  \<open>balance_savings\<close> 30. In general the \<open>balance_savings\<close> of a customer is what
  \<open>calculateSavingsBalance\<close> returns for the member's key: 0 without a ledger, and
  otherwise the sum of the amounts of the customer's non-reversed entries of type DAILY,
  WEEKLY or MONTHLY minus the sum of its non-reversed WITHDRAWAL amounts (a ledger with
  an entry that has no \<open>cust\<close> makes the call throw).
\<close>

theorem C7_savings_balance:
  "(\<exists>d. transformData test_env ada_old = Inr d \<and>
        map (\<lambda>c. (c_id c, c_balance_savings c)) (customers d) = [(Some 7, 30)]) \<and>
   (transform_member ev ledger (cid, m) = Inr c \<longrightarrow>
      calculateSavingsBalance cid ledger = Inr (c_balance_savings c)) \<and>
   calculateSavingsBalance cid None = Inr 0 \<and>
   calculateSavingsBalance cid (Some l) =
     (if \<exists>tx \<in> set l. e_cust tx = None then Inl TypeError
      else Inr (sum_list (map e_amount
                  (filter (\<lambda>tx. e_type tx \<in> {''DAILY'', ''WEEKLY'', ''MONTHLY''})
                     (filter (\<lambda>tx. e_cust tx = Some cid \<and> \<not> e_reversed tx) l)))
                - sum_list (map e_amount
                    (filter (\<lambda>tx. e_type tx = ''WITHDRAWAL'')
                       (filter (\<lambda>tx. e_cust tx = Some cid \<and> \<not> e_reversed tx) l)))))"
proof -
  have "(case transformData test_env ada_old of
           Inl e \<Rightarrow> None
         | Inr d \<Rightarrow> Some (map (\<lambda>c. (c_id c, c_balance_savings c)) (customers d)))
        = Some [(Some 7, 30)]"
    by code_simp
  then have ex: "\<exists>d. transformData test_env ada_old = Inr d \<and>
        map (\<lambda>c. (c_id c, c_balance_savings c)) (customers d) = [(Some 7, 30)]"
    by (cases "transformData test_env ada_old") simp_all
  have tm: "transform_member ev ledger (cid, m) = Inr c \<longrightarrow>
      calculateSavingsBalance cid ledger = Inr (c_balance_savings c)"
    by (auto simp: transform_member_def split: sum.splits)
  have none: "calculateSavingsBalance cid None = Inr 0"
    by (simp add: calculateSavingsBalance_def)
  have some: "calculateSavingsBalance cid (Some l) =
     (if \<exists>tx \<in> set l. e_cust tx = None then Inl TypeError
      else Inr (sum_list (map e_amount
                  (filter (\<lambda>tx. e_type tx \<in> {''DAILY'', ''WEEKLY'', ''MONTHLY''})
                     (filter (\<lambda>tx. e_cust tx = Some cid \<and> \<not> e_reversed tx) l)))
                - sum_list (map e_amount
                    (filter (\<lambda>tx. e_type tx = ''WITHDRAWAL'')
                       (filter (\<lambda>tx. e_cust tx = Some cid \<and> \<not> e_reversed tx) l)))))"
    unfolding calculateSavingsBalance_def customerTxs_def savings_fold
    by simp
  from ex tm none some show ?thesis by (intro conjI)
qed

theorem C7_savings_balance_witness:
  "calculateSavingsBalance ''7'' (Some [entry_daily, entry_withdrawal]) = Inr 30 \<and>
   calculateSavingsBalance ''7'' (Some [entry_daily\<lparr>e_cust := None\<rparr>]) = Inl TypeError \<and>
   (\<exists>c. transform_member test_env (Some [entry_daily, entry_withdrawal]) (''7'', ada_member)
           = Inr c \<and> c_balance_savings c = 30)"
proof -
  have c: "transform_member test_env (Some [entry_daily, entry_withdrawal]) (''7'', ada_member)
       = Inr (ada\<lparr>c_last_updated := now test_env\<rparr>)"
    by code_simp
  have "calculateSavingsBalance ''7'' (Some [entry_daily, entry_withdrawal]) = Inr 30"
    using C7_savings_balance[of test_env "Some [entry_daily, entry_withdrawal]" "''7''"
        ada_member "ada\<lparr>c_last_updated := now test_env\<rparr>" "[entry_daily, entry_withdrawal]"] c
    by (simp add: ada_def)
  moreover have "calculateSavingsBalance ''7'' (Some [entry_daily\<lparr>e_cust := None\<rparr>]) = Inl TypeError"
    using C7_savings_balance[of test_env None "''7''" ada_member ada "[entry_daily\<lparr>e_cust := None\<rparr>]"]
    by simp
  ultimately show ?thesis using c by (simp add: ada_def)
qed

section \<open>Migrator: idempotence\<close>

lemma collect_isl: "isl (collect xs) = (\<exists>x \<in> set xs. isl x)"
proof (induction xs)
  case Nil
  show ?case by simp
next
  case (Cons x xs)
  then show ?case by (cases x) (auto split: sum.splits)
qed

lemma transform_member_isl:
  "isl (transform_member ev l km) = isl (transform_member ev' l km)"
  by (simp add: transform_member_def split: sum.splits)

lemma transformData_isl: "isl (transformData ev d) = isl (transformData ev' d)"
proof -
  have "isl (transformData ev d) =
        isl (collect (map (transform_member ev (o_ledger d))
               (case o_members d of None \<Rightarrow> [] | Some ms \<Rightarrow> ms)))" for ev
    by (simp add: transformData_def Let_def split: sum.splits)
  then show ?thesis
    using transform_member_isl[of ev "o_ledger d" _ ev'] by (simp add: collect_isl)
qed

lemma saveNewData_settings: "obata_v2_settings (saveNewData ev d ls) \<noteq> None"
  by (auto simp: saveNewData_def saveAllData_def logAudit_def live_def Let_def
           split: option.splits sum.splits if_splits)

lemma archived_is_migrated: "isAlreadyMigrated (archiveOldData ls)"
  by (simp add: isAlreadyMigrated_def archiveOldData_def)

lemma migrate_guard: "isAlreadyMigrated ls \<Longrightarrow> migrate ev ls = (True, ls)"
  by (simp add: migrate_def)

lemma migrate_twice: "snd (migrate ev2 (snd (migrate ev1 ls))) = snd (migrate ev1 ls)"
proof (cases "isAlreadyMigrated ls")
  case True
  then show ?thesis by (simp add: migrate_def)
next
  case nm: False
  show ?thesis
  proof (cases "loadOldData ls")
    case None
    with nm show ?thesis by (simp add: migrate_def)
  next
    case (Some old)
    show ?thesis
    proof (cases "transformData ev1 old")
      case (Inl e)
      then have "isl (transformData ev2 old)"
        using transformData_isl[of ev1 old ev2] by simp
      then obtain e' where "transformData ev2 old = Inl e'" by (cases "transformData ev2 old") auto
      with nm Some Inl show ?thesis by (simp add: migrate_def)
    next
      case (Inr newData)
      with nm Some have "snd (migrate ev1 ls) = archiveOldData (saveNewData ev1 newData ls)"
        by (simp add: migrate_def)
      then show ?thesis by (simp add: migrate_guard archived_is_migrated)
    qed
  qed
qed

lemma migrate_again:
  "fst (migrate ev1 ls) \<Longrightarrow> migrate ev2 (snd (migrate ev1 ls)) = (True, snd (migrate ev1 ls))"
proof (cases "isAlreadyMigrated ls")
  case True
  then show ?thesis by (simp add: migrate_def)
next
  case nm: False
  assume ok: "fst (migrate ev1 ls)"
  show ?thesis
  proof (cases "loadOldData ls")
    case None
    with nm show ?thesis by (simp add: migrate_def)
  next
    case (Some old)
    with nm ok obtain newData where "transformData ev1 old = Inr newData"
      by (cases "transformData ev1 old") (auto simp: migrate_def)
    with nm Some have "snd (migrate ev1 ls) = archiveOldData (saveNewData ev1 newData ls)"
      by (simp add: migrate_def)
    then show ?thesis by (simp add: migrate_guard archived_is_migrated)
  qed
qed

text \<open>
  Claim C3. When the settings record of the current schema or the archive of the old
  data is in persistence, \<open>migrate\<close> writes nothing and reports success. The migrator
  is idempotent: a second run leaves the persisted state of the first run as it is, and
  reports success whenever the first run did.
\<close>

theorem C3_migrate_idempotent:
  "(obata_v2_settings ls \<noteq> None \<or> obata_v2_archive_v22 ls \<noteq> None
      \<longrightarrow> migrate ev ls = (True, ls)) \<and>
   snd (migrate ev2 (snd (migrate ev1 ls))) = snd (migrate ev1 ls) \<and>
   (fst (migrate ev1 ls) \<longrightarrow> fst (migrate ev2 (snd (migrate ev1 ls))))"
  using migrate_guard[of ls ev] migrate_twice[of ev2 ev1 ls] migrate_again[of ev1 ls ev2]
  by (simp add: isAlreadyMigrated_def)

theorem C3_migrate_idempotent_witness:
  "obata_v2_archive_v22 (snd (migrate test_env old_storage)) \<noteq> None \<and>
   fst (migrate test_env old_storage) \<and>
   migrate test_env (snd (migrate test_env old_storage))
     = (True, snd (migrate test_env old_storage)) \<and>
   obata_members (snd (migrate test_env old_storage)) = None \<and>
   map_option (map c_balance_savings) (obata_v2_customers (snd (migrate test_env old_storage)))
     = Some [30]"
proof -
  have a: "obata_v2_archive_v22 (snd (migrate test_env old_storage)) \<noteq> None"
    by code_simp
  have b: "fst (migrate test_env old_storage)"
    by code_simp
  have c: "obata_members (snd (migrate test_env old_storage)) = None"
    by code_simp
  have d: "map_option (map c_balance_savings)
             (obata_v2_customers (snd (migrate test_env old_storage))) = Some [30]"
    by code_simp
  from C3_migrate_idempotent[where ls = "snd (migrate test_env old_storage)"
      and ev = test_env] a b
  have "migrate test_env (snd (migrate test_env old_storage))
          = (True, snd (migrate test_env old_storage))"
    by simp
  moreover from C3_migrate_idempotent[where ls = old_storage and ev = test_env
      and ?ev1.0 = test_env and ?ev2.0 = test_env] b
  have "fst (migrate test_env (snd (migrate test_env old_storage)))"
    by simp
  ultimately show ?thesis using a b c d by simp
qed

section \<open>Backups in memory\<close>

lemma createBackup_mem:
  "live st = Some (r, sd) \<Longrightarrow>
   currentData (snd (createBackup ev ty st)) = currentData st \<and>
   objs (snd (createBackup ev ty st)) = objs (push_backup (new_backup ev ty st sd) r sd st) \<and>
   hists (snd (createBackup ev ty st)) = hists (push_backup (new_backup ev ty st sd) r sd st) \<and>
   audits (snd (createBackup ev ty st)) = audits st"
  by (simp add: createBackup_def Let_def push_backup_def split: option.splits)

lemma createBackup_no_live: "live st = None \<Longrightarrow> createBackup ev ty st = (None, st)"
  by (simp add: createBackup_def)

lemma live_Some:
  "(live st = Some (r, sd)) = (currentData st = Some r \<and> r < length (objs st) \<and> objs st ! r = sd)"
  by (auto simp: live_def split: option.splits)

lemma push_backup_obj:
  "r < length (objs st) \<Longrightarrow> objs st ! r = sd \<Longrightarrow>
   objs (push_backup bk r sd st) ! r =
     (if length (hist_at st (backup_history sd)) \<ge> 50
      then sd\<lparr>backup_history := length (hists st)\<rparr> else sd) \<and>
   length (objs (push_backup bk r sd st)) = Suc (length (objs st))"
  by (simp add: push_backup_def Let_def nth_append)

lemma live_createBackup:
  assumes l: "live st = Some (r, sd)"
  shows "\<exists>sd'. live (snd (createBackup ev ty st)) = Some (r, sd') \<and>
         settings sd' = settings sd \<and> users sd' = users sd \<and> customers sd' = customers sd \<and>
         transactions sd' = transactions sd \<and> loans sd' = loans sd \<and>
         audit_log sd' = audit_log sd \<and> metadata sd' = metadata sd"
proof -
  from l have r: "r < length (objs st)" "objs st ! r = sd" "currentData st = Some r"
    by (simp_all add: live_Some)
  show ?thesis
    using createBackup_mem[OF l, of ev ty] push_backup_obj[OF r(1,2), of "new_backup ev ty st sd"]
      r(1,3)
    by (simp add: live_def)
qed

section \<open>Import: validation and the checksum\<close>

lemma validateImportData_iff:
  "validateImportData c =
     (schema_version c = Some ''2.3'' \<and>
      (\<exists>d. data c = Some d \<and> i_customers d \<noteq> Undefined \<and> i_transactions d \<noteq> Undefined))"
  by (auto simp: validateImportData_def split: option.splits)

lemma importData_invalid:
  "\<not> validateImportData c \<Longrightarrow> importData ev c st = (Some InvalidFormat, st)"
  by (simp add: importData_def)

lemma importData_resolved_valid: "fst (importData ev c st) = None \<Longrightarrow> validateImportData c"
  by (rule ccontr) (simp add: importData_invalid)

lemma logAudit_live: "live st \<noteq> None \<Longrightarrow> \<exists>st'. logAudit ev a d st = Inr st'"
  by (auto simp: logAudit_def Let_def split: option.splits)

lemma logAudit_currentData:
  "logAudit ev a d st = Inr st' \<Longrightarrow>
   currentData st' = currentData st \<and> length (objs st') = length (objs st)"
  by (auto simp: logAudit_def Let_def split: option.splits if_splits)

lemma saveAllData_currentData:
  "currentData (snd (saveAllData ev dt st)) = currentData st \<and>
   length (objs (snd (saveAllData ev dt st))) = length (objs st)"
  by (auto simp: saveAllData_def Let_def split: option.splits sum.splits
           dest!: logAudit_currentData)

lemma live_None_iff:
  "(live st = None) = (case currentData st of None \<Rightarrow> True | Some r \<Rightarrow> length (objs st) \<le> r)"
  by (auto simp: live_def split: option.splits)

lemma saveAllData_live: "live st \<noteq> None \<Longrightarrow> live (snd (saveAllData ev dt st)) \<noteq> None"
  using saveAllData_currentData[of ev dt st]
  by (simp add: live_None_iff split: option.splits)

lemma logAudit_error: "logAudit ev a d st = Inl e \<Longrightarrow> e = TypeError"
  by (auto simp: logAudit_def Let_def split: option.splits)

lemma mergeData_error: "mergeData sd d = Inl e \<Longrightarrow> e = TypeError"
  by (auto simp: mergeData_def split: field.splits)

lemma importData_valid_error:
  "validateImportData c \<Longrightarrow> fst (importData ev c st) \<noteq> Some InvalidFormat"
  by (auto simp: importData_def Let_def split: option.splits sum.splits
           dest: logAudit_error mergeData_error)

lemma is_array_Val: "is_array f = (\<exists>x. f = Val x)"
  by (cases f) (simp_all add: is_array_def)

lemma importData_resolves:
  assumes v: "validateImportData c" and d: "data c = Some d"
    and a: "is_array (i_customers d)" "is_array (i_transactions d)"
           "is_array (i_users d)" "is_array (i_loans d)"
    and l: "live st \<noteq> None"
  shows "fst (importData ev c st) = None"
proof -
  from l obtain r sd where l0: "live st = Some (r, sd)" by auto
  from live_createBackup[OF l0, of ev "''pre_import_backup''"] obtain sd' where
    l1: "live (snd (createBackup ev ''pre_import_backup'' st)) = Some (r, sd')" by blast
  from a obtain ic it iu il where
    i: "i_customers d = Val ic" "i_transactions d = Val it" "i_users d = Val iu"
       "i_loans d = Val il"
    by (auto simp: is_array_Val)
  from mergeData_Inr[OF i, of sd'] obtain m where m: "mergeData sd' d = Inr m" by blast
  let ?st1 = "snd (createBackup ev ''pre_import_backup'' st)"
  let ?st2 = "?st1\<lparr>objs := objs ?st1 @ [m], currentData := Some (length (objs ?st1))\<rparr>"
  have "live ?st2 \<noteq> None" by (simp add: live_None_iff)
  then have "live (snd (saveAllData ev None ?st2)) \<noteq> None" by (rule saveAllData_live)
  from logAudit_live[OF this] obtain st4 where
    "logAudit ev ''DATA_IMPORTED''
       [(''timestamp'', SStr (now ev)), (''source'', SStr ''file''),
        (''items_imported'',
           SNum (case i_metadata d of Val md \<Rightarrow> int (total_customers md) | _ \<Rightarrow> 0)),
        (''user'', SStr ''system'')] (snd (saveAllData ev None ?st2)) = Inr st4"
    by blast
  with v d l1 m show ?thesis by (simp add: importData_def Let_def)
qed

text \<open>
  A container that passes the validation with a collection that is missing or \<open>null\<close>
  where \<open>mergeData\<close> needs an array: the pre-import backup is taken, the merge throws,
  and the import is rejected with that \<open>TypeError\<close>, not with \<open>InvalidFormat\<close>.
\<close>

lemma mergeData_not_array:
  "\<not> (is_array (i_customers d) \<and> is_array (i_transactions d) \<and>
       is_array (i_users d) \<and> is_array (i_loans d)) \<Longrightarrow>
   mergeData sd d = Inl TypeError"
  by (auto simp: mergeData_def is_array_def split: field.splits)

lemma importData_not_array:
  assumes v: "validateImportData c" and d: "data c = Some d"
    and n: "\<not> (is_array (i_customers d) \<and> is_array (i_transactions d) \<and>
               is_array (i_users d) \<and> is_array (i_loans d))"
  shows "importData ev c st = (Some TypeError, snd (createBackup ev ''pre_import_backup'' st))"
  using v d mergeData_not_array[OF n]
  by (simp add: importData_def Let_def split: option.splits)

lemma null_customers_pass_validation:
  "validateImportData null_container \<and>
   fst (importData test_env null_container (new_store test_env)) = Some TypeError"
proof -
  have v: "validateImportData null_container" and d: "data null_container = Some null_data"
    by (simp_all add: validateImportData_def null_container_def shop_container_def
          old_container_def null_data_def shop_import_def)
  have n: "\<not> (is_array (i_customers null_data) \<and> is_array (i_transactions null_data) \<and>
               is_array (i_users null_data) \<and> is_array (i_loans null_data))"
    by (simp add: null_data_def is_array_def)
  from importData_not_array[OF v d n, of test_env "new_store test_env"] v show ?thesis by simp
qed

text \<open>
  Claim C4. \<open>importData\<close> resolves only for a container whose \<open>schema_version\<close> is
  \<open>"2.3"\<close> and whose \<open>data\<close> has both \<open>customers\<close> and \<open>transactions\<close> (the
  property is there: an array, empty or not, or \<open>null\<close>); every other container, one
  with \<open>schema_version\<close> \<open>"2.2"\<close> among them, is rejected with \<open>InvalidFormat\<close> and
  the state (the live snapshot, the heap and the persistence layer) is the one before
  the call. A container of the first kind that is rejected all the same is rejected
  with a \<open>TypeError\<close> (\<open>importData_valid_error\<close>, \<open>importData_not_array\<close>).
\<close>

theorem C4_import_validation:
  "(fst (importData ev c st) = None \<longrightarrow>
      schema_version c = Some ''2.3'' \<and>
      (\<exists>d. data c = Some d \<and> i_customers d \<noteq> Undefined \<and> i_transactions d \<noteq> Undefined)) \<and>
   (\<not> (schema_version c = Some ''2.3'' \<and>
        (\<exists>d. data c = Some d \<and> i_customers d \<noteq> Undefined \<and> i_transactions d \<noteq> Undefined)) \<longrightarrow>
      importData ev c st = (Some InvalidFormat, st)) \<and>
   (schema_version c = Some ''2.2'' \<longrightarrow> importData ev c st = (Some InvalidFormat, st))"
  using importData_resolved_valid[of ev c st] importData_invalid[of c ev st]
  by (auto simp: validateImportData_iff)

theorem C4_import_validation_witness:
  "schema_version old_container = Some ''2.2'' \<and>
   importData test_env old_container (new_store test_env)
     = (Some InvalidFormat, new_store test_env) \<and>
   importData test_env (shop_container\<lparr>data := Some (shop_import\<lparr>i_customers := Undefined\<rparr>)\<rparr>)
       (new_store test_env)
     = (Some InvalidFormat, new_store test_env) \<and>
   fst (importData test_env shop_container (new_store test_env)) = None \<and>
   schema_version shop_container = Some ''2.3''"
proof -
  have a: "schema_version old_container = Some ''2.2''"
    by (simp add: old_container_def)
  have "validateImportData shop_container" "data shop_container = Some shop_import"
    "is_array (i_customers shop_import)" "is_array (i_transactions shop_import)"
    "is_array (i_users shop_import)" "is_array (i_loans shop_import)"
    "live (new_store test_env) \<noteq> None"
    by (simp_all add: validateImportData_def shop_container_def old_container_def
          shop_import_def new_store_def live_def is_array_def)
  then have b: "fst (importData test_env shop_container (new_store test_env)) = None"
    by (rule importData_resolves)
  from C4_import_validation[of test_env old_container "new_store test_env"] a
  have "importData test_env old_container (new_store test_env)
          = (Some InvalidFormat, new_store test_env)"
    by simp
  moreover
  from C4_import_validation[of test_env
      "shop_container\<lparr>data := Some (shop_import\<lparr>i_customers := Undefined\<rparr>)\<rparr>"
      "new_store test_env"]
  have "importData test_env (shop_container\<lparr>data := Some (shop_import\<lparr>i_customers := Undefined\<rparr>)\<rparr>)
          (new_store test_env) = (Some InvalidFormat, new_store test_env)"
    by simp
  moreover from C4_import_validation[of test_env shop_container "new_store test_env"] b
  have "schema_version shop_container = Some ''2.3''"
    by simp
  ultimately show ?thesis using a b by simp
qed

text \<open>
  Claim C10, as stated, fails: a container with \<open>schema_version\<close> \<open>"2.3"\<close> and empty
  \<open>customers\<close> and \<open>transactions\<close> but no \<open>users\<close> passes the validation and is
  then rejected by \<open>importData\<close> with the \<open>TypeError\<close> of \<open>mergeData\<close>.
\<close>

theorem C10_bare_container_rejected:
  "schema_version bare_container = Some ''2.3'' \<and>
   map_option i_customers (data bare_container) = Some (Val []) \<and>
   map_option i_transactions (data bare_container) = Some (Val []) \<and>
   validateImportData bare_container \<and>
   fst (importData test_env bare_container (new_store test_env)) = Some TypeError"
  by code_simp

text \<open>
  Claim C10, amended. The validation of an import never reads the checksum. For a
  container with \<open>schema_version\<close> \<open>"2.3"\<close> whose \<open>data\<close> has \<open>customers\<close> and
  \<open>transactions\<close> (present, be it as \<open>null\<close>), whatever is put in the place of the
  checksum (nothing, or any text, equal to the hash of the data or not): the validation
  accepts, \<open>importData\<close> does what it does for the original container and does not
  reject with \<open>InvalidFormat\<close>, and it resolves when \<open>customers\<close>, \<open>transactions\<close>,
  \<open>users\<close> and \<open>loans\<close> are arrays of records and there is a live snapshot.
  \<open>validateBackup\<close> of the standalone utility gives the same answer with and without
  the checksum.
\<close>

theorem C10_checksum_not_inspected:
  assumes "schema_version c = Some ''2.3''" and "data c = Some d"
    and "i_customers d \<noteq> Undefined" and "i_transactions d \<noteq> Undefined"
  shows "validateImportData (c\<lparr>checksum := x\<rparr>) \<and>
         importData ev (c\<lparr>checksum := x\<rparr>) st = importData ev c st \<and>
         fst (importData ev (c\<lparr>checksum := x\<rparr>) st) \<noteq> Some InvalidFormat \<and>
         validateBackup (c\<lparr>checksum := x\<rparr>) = validateBackup c \<and>
         (is_array (i_customers d) \<and> is_array (i_transactions d) \<and>
          is_array (i_users d) \<and> is_array (i_loans d) \<and> live st \<noteq> None \<longrightarrow>
            fst (importData ev (c\<lparr>checksum := x\<rparr>) st) = None)"
proof -
  have v: "validateImportData (c\<lparr>checksum := x\<rparr>)"
    using assms by (simp add: validateImportData_def)
  have sel: "data (c\<lparr>checksum := x\<rparr>) = data c"
    "schema_version (c\<lparr>checksum := x\<rparr>) = schema_version c"
    by simp_all
  have e: "importData ev (c\<lparr>checksum := x\<rparr>) st = importData ev c st"
    unfolding importData_def validateImportData_def sel by (rule refl)
  have n: "fst (importData ev (c\<lparr>checksum := x\<rparr>) st) \<noteq> Some InvalidFormat"
    using v by (rule importData_valid_error)
  have b: "validateBackup (c\<lparr>checksum := x\<rparr>) = validateBackup c"
    by (simp add: validateBackup_def split: option.splits)
  have r: "is_array (i_customers d) \<and> is_array (i_transactions d) \<and>
           is_array (i_users d) \<and> is_array (i_loans d) \<and> live st \<noteq> None \<longrightarrow>
            fst (importData ev (c\<lparr>checksum := x\<rparr>) st) = None"
    using importData_resolves[OF v, of d st ev] assms(2) by simp
  from v e n b r show ?thesis by (intro conjI)
qed

theorem C10_checksum_not_inspected_witness:
  "validateImportData (shop_container\<lparr>checksum := Some ''not the hash''\<rparr>) \<and>
   fst (importData test_env (shop_container\<lparr>checksum := Some ''not the hash''\<rparr>)
          (new_store test_env)) = None \<and>
   fst (importData test_env (shop_container\<lparr>checksum := None\<rparr>) (new_store test_env)) = None \<and>
   validateImportData (null_container\<lparr>checksum := Some ''not the hash''\<rparr>) \<and>
   fst (importData test_env (null_container\<lparr>checksum := Some ''not the hash''\<rparr>)
          (new_store test_env)) \<noteq> Some InvalidFormat"
proof -
  have h: "schema_version shop_container = Some ''2.3''" "data shop_container = Some shop_import"
    "i_customers shop_import \<noteq> Undefined" "i_transactions shop_import \<noteq> Undefined"
    by (simp_all add: shop_container_def old_container_def shop_import_def)
  have g: "is_array (i_customers shop_import)" "is_array (i_transactions shop_import)"
    "is_array (i_users shop_import)" "is_array (i_loans shop_import)"
    "live (new_store test_env) \<noteq> None"
    by (simp_all add: shop_import_def new_store_def live_def is_array_def)
  have k: "schema_version null_container = Some ''2.3''" "data null_container = Some null_data"
    "i_customers null_data \<noteq> Undefined" "i_transactions null_data \<noteq> Undefined"
    by (simp_all add: null_container_def null_data_def shop_container_def old_container_def
          shop_import_def)
  have a: "validateImportData (shop_container\<lparr>checksum := Some ''not the hash''\<rparr>)"
    and b: "fst (importData test_env (shop_container\<lparr>checksum := Some ''not the hash''\<rparr>)
                   (new_store test_env)) = None"
    using C10_checksum_not_inspected[OF h, of "Some ''not the hash''" test_env
        "new_store test_env"] g
    by blast+
  have c: "fst (importData test_env (shop_container\<lparr>checksum := None\<rparr>)
                  (new_store test_env)) = None"
    using C10_checksum_not_inspected[OF h, of None test_env "new_store test_env"] g
    by blast
  have d: "validateImportData (null_container\<lparr>checksum := Some ''not the hash''\<rparr>)"
    and e: "fst (importData test_env (null_container\<lparr>checksum := Some ''not the hash''\<rparr>)
                   (new_store test_env)) \<noteq> Some InvalidFormat"
    using C10_checksum_not_inspected[OF k, of "Some ''not the hash''" test_env
        "new_store test_env"]
    by blast+
  from a b c d e show ?thesis by (intro conjI)
qed

section \<open>The history in memory\<close>

lemma push_backup_hists:
  "h = backup_history sd \<Longrightarrow> h < length (hists st) \<Longrightarrow>
   hists (push_backup bk r sd st) =
     (if length (hists st ! h) \<ge> 50
      then (hists st)[h := bk # hists st ! h] @ [take 50 (bk # hists st ! h)]
      else (hists st)[h := bk # hists st ! h])"
  by (simp add: push_backup_def Let_def hist_at_def)

lemma createBackup_history:
  assumes l: "live st = Some (r, sd)" and w: "backup_history sd < length (hists st)"
  shows "live_history (snd (createBackup ev ty st)) =
           take 50 (new_backup ev ty st sd # live_history st) \<and>
         (\<exists>r' sd'. live (snd (createBackup ev ty st)) = Some (r', sd') \<and>
                   backup_history sd' < length (hists (snd (createBackup ev ty st))))"
proof -
  let ?bk = "new_backup ev ty st sd"
  let ?st = "snd (createBackup ev ty st)"
  from l have r: "r < length (objs st)" "objs st ! r = sd" "currentData st = Some r"
    by (simp_all add: live_Some)
  note m = createBackup_mem[OF l, of ev ty]
  note o = push_backup_obj[OF r(1,2), of ?bk]
  note h = push_backup_hists[OF refl w, of ?bk r]
  have lv: "live ?st = Some (r, objs ?st ! r)"
    using m o r by (simp add: live_def)
  have old: "live_history st = hists st ! backup_history sd"
    using l w by (simp add: live_history_def hist_at_def)
  show ?thesis
  proof (cases "length (hists st ! backup_history sd) \<ge> 50")
    case True
    then have "objs ?st ! r = sd\<lparr>backup_history := length (hists st)\<rparr>"
      using m o w by (simp add: hist_at_def)
    moreover have "hists ?st = (hists st)[backup_history sd := ?bk # hists st ! backup_history sd]
                     @ [take 50 (?bk # hists st ! backup_history sd)]"
      using m h True by simp
    ultimately show ?thesis using lv old
      by (simp add: live_history_def hist_at_def nth_append)
  next
    case False
    then have "objs ?st ! r = sd"
      using m o w by (simp add: hist_at_def)
    moreover have "hists ?st = (hists st)[backup_history sd := ?bk # hists st ! backup_history sd]"
      using m h False by simp
    ultimately show ?thesis using lv old w False
      by (simp add: live_history_def hist_at_def)
  qed
qed

lemma b_type_new_backup: "b_type (new_backup ev ty st sd) = ty"
  by (simp add: new_backup_def)

lemma take_append_take: "take n (xs @ take n ys) = take n (xs @ ys)"
  by (simp add: min_def)

lemma createBackups_history:
  "live st = Some (r, sd) \<Longrightarrow> backup_history sd < length (hists st) \<Longrightarrow>
   map b_type (live_history (createBackups ev tys st)) =
     (if tys = [] then map b_type (live_history st)
      else take 50 (rev tys @ map b_type (live_history st)))"
proof (induction tys arbitrary: st r sd)
  case Nil
  show ?case by simp
next
  case (Cons ty tys)
  let ?st = "snd (createBackup ev ty st)"
  from createBackup_history[OF Cons.prems, of ev ty] obtain r' sd' where
    h: "live_history ?st = take 50 (new_backup ev ty st sd # live_history st)"
    and l: "live ?st = Some (r', sd')" and w: "backup_history sd' < length (hists ?st)"
    by blast
  have t: "take 50 (rev tys @ take 50 (ty # map b_type (live_history st)))
           = take 50 (rev tys @ ty # map b_type (live_history st))"
    using take_append_take[of 50 "rev tys" "ty # map b_type (live_history st)"] by simp
  show ?case
    using Cons.IH[OF l w] t by (simp add: h take_map b_type_new_backup)
qed

text \<open>
  After more than 50 calls of \<open>createBackup\<close> the live history has exactly 50 entries:
  the 50 most recent backups, the most recent first.
\<close>

lemma createBackups_bounded:
  assumes "live st = Some (r, sd)" and "backup_history sd < length (hists st)"
    and "length tys > 50"
  shows "length (live_history (createBackups ev tys st)) = 50 \<and>
         map b_type (live_history (createBackups ev tys st)) = take 50 (rev tys)"
proof -
  from assms(3) have ne: "tys \<noteq> []" by auto
  have m: "map b_type (live_history (createBackups ev tys st)) = take 50 (rev tys)"
    using createBackups_history[OF assms(1,2), of ev tys] ne assms(3) by simp
  have "length (live_history (createBackups ev tys st))
          = length (map b_type (live_history (createBackups ev tys st)))"
    by simp
  also have "\<dots> = 50"
    unfolding m using assms(3) by simp
  finally show ?thesis using m by simp
qed

lemma logBackup_mem:
  "live st = Some (r, sd) \<Longrightarrow>
   currentData (snd (logBackup ev ty (Some t) st)) = currentData st \<and>
   objs (snd (logBackup ev ty (Some t) st)) = objs st \<and>
   hists (snd (logBackup ev ty (Some t) st)) =
     (hists st)[backup_history sd :=
        BackupLog ty (now ev) (json_size ev (Some t))
          (case t of TSnapshot se us cs ts ls bh al md \<Rightarrow>
             \<lparr> n_customers = length cs, n_transactions = length ts, n_users = length us \<rparr>)
        # hist_at st (backup_history sd)]"
  by (cases t) (simp add: logBackup_def Let_def split: option.splits)

text \<open>\<open>logBackup\<close> makes the live history one entry longer, whatever its length.\<close>

lemma logBackup_history:
  assumes l: "live st = Some (r, sd)" and w: "backup_history sd < length (hists st)"
  shows "\<exists>b. live_history (snd (logBackup ev ty (Some t) st)) = b # live_history st \<and>
             b_type b = ty"
proof -
  from l have r: "r < length (objs st)" "objs st ! r = sd" "currentData st = Some r"
    by (simp_all add: live_Some)
  have "live (snd (logBackup ev ty (Some t) st)) = Some (r, sd)"
    using logBackup_mem[OF l, of ev ty t] r by (simp add: live_def)
  then show ?thesis
    using logBackup_mem[OF l, of ev ty t] l w
    by (simp add: live_history_def hist_at_def)
qed

lemma exportAllData_history:
  assumes l: "live st = Some (r, sd)" and w: "backup_history sd < length (hists st)"
    and ok: "fst (exportAllData ev st)"
  shows "length (live_history (snd (snd (exportAllData ev st)))) = Suc (length (live_history st))"
proof -
  from l have c: "currentData st = Some r" by (simp add: live_Some)
  from ok c obtain t where t: "stringify_snapshot st [] r = Some t"
    by (cases "stringify_snapshot st [] r") (auto simp: exportAllData_def)
  have "snd (snd (exportAllData ev st)) = snd (logBackup ev ''manual'' (Some t) st)"
    using c t by (simp add: exportAllData_def Let_def split: prod.splits option.splits)
  with logBackup_history[OF l w, of ev "''manual''" t] show ?thesis by auto
qed

text \<open>
  Claim C8. Both \<open>createBackup\<close> and \<open>logBackup\<close> put the new entry in front, and
  \<open>createBackup\<close> truncates to 50 (\<open>createBackup_history\<close>, \<open>createBackups_bounded\<close>),
  but \<open>logBackup\<close> does not truncate (\<open>logBackup_history\<close>): on a store whose history
  holds 50 entries, the export succeeds and leaves a history of 51 entries.
\<close>

theorem C8_logBackup_exceeds_cap:
  "length (live_history full_state) = 50 \<and>
   fst (exportAllData test_env full_state) \<and>
   length (live_history (snd (snd (exportAllData test_env full_state)))) = 51"
proof -
  have l: "live full_state = Some (0, ada_snapshot)"
    by (simp add: live_def full_state_def ada_state_def)
  have w: "backup_history ada_snapshot < length (hists full_state)"
    by (simp add: full_state_def ada_state_def ada_snapshot_def)
  have n: "length (live_history full_state) = 50"
    unfolding live_history_def l
    by (simp add: hist_at_def full_state_def ada_state_def ada_snapshot_def)
  have ok: "fst (exportAllData test_env full_state)"
    by code_simp
  from exportAllData_history[OF l w ok] n ok show ?thesis by simp
qed

section \<open>Restore\<close>

lemma restoreBackup_not_found:
  "live st \<noteq> None \<Longrightarrow> \<not> (0 \<le> i \<and> i < int (length (live_history st))) \<Longrightarrow>
   restoreBackup ev i st = (Some NotFound, st)"
  by (auto simp: restoreBackup_def live_history_def Let_def)

lemma restoreBackup_no_snapshot:
  "live st = None \<Longrightarrow> restoreBackup ev i st = (Some TypeError, st)"
  by (simp add: restoreBackup_def)

lemma logAudit_mem:
  assumes "logAudit ev a dt st = Inr st'" and "live st = Some (r, sd)"
    and "audit_log sd < length (audits st)"
  shows "currentData st' = currentData st \<and> hists st' = hists st \<and>
         length (objs st') = length (objs st) \<and>
         live_audit_log st' =
           take 1000 (\<lparr> a_timestamp = now ev, a_action = a, a_details = dt,
                         a_user_agent = user_agent ev \<rparr> # live_audit_log st) \<and>
         (\<exists>sd'. live st' = Some (r, sd') \<and> audit_log sd' < length (audits st') \<and>
                sd' = sd\<lparr>audit_log := audit_log sd'\<rparr>)"
  using assms
  by (auto simp: logAudit_def live_audit_log_def live_def audit_at_def Let_def nth_append
           split: option.splits if_splits)

lemma saveAllData_mem:
  assumes l: "live st = Some (r, sd)" and w: "audit_log sd < length (audits st)"
  shows "currentData (snd (saveAllData ev None st)) = currentData st \<and>
         hists (snd (saveAllData ev None st)) = hists st \<and>
         length (objs (snd (saveAllData ev None st))) = length (objs st) \<and>
         (\<exists>sd'. live (snd (saveAllData ev None st)) = Some (r, sd') \<and>
                audit_log sd' < length (audits (snd (saveAllData ev None st))) \<and>
                sd' = sd\<lparr>metadata := compute_metadata ev sd, audit_log := audit_log sd'\<rparr>)"
proof -
  from l have r: "r < length (objs st)" "objs st ! r = sd" "currentData st = Some r"
    by (simp_all add: live_Some)
  let ?md = "compute_metadata ev sd"
  let ?st1 = "st\<lparr>objs := (objs st)[r := sd\<lparr>metadata := ?md\<rparr>]\<rparr>"
  show ?thesis
  proof (cases "stringify_history ?st1 (backup_history sd)")
    case None
    then have "snd (saveAllData ev None st) =
        ?st1\<lparr>storage := (storage st)
                 \<lparr>obata_v2_settings := Some (settings sd),
                  obata_v2_users := Some (users sd),
                  obata_v2_customers := Some (customers sd),
                  obata_v2_transactions := Some (transactions sd),
                  obata_v2_loans := Some (loans sd)\<rparr>\<rparr>"
      using r by (simp add: saveAllData_def Let_def)
    then show ?thesis using r w by (simp add: live_def)
  next
    case (Some hs)
    let ?st2 = "?st1\<lparr>storage := (storage ?st1)
                 \<lparr>obata_v2_settings := Some (settings sd),
                  obata_v2_users := Some (users sd),
                  obata_v2_customers := Some (customers sd),
                  obata_v2_transactions := Some (transactions sd),
                  obata_v2_loans := Some (loans sd),
                  obata_v2_backup_history := Some hs,
                  obata_v2_audit_log := Some (audit_at ?st1 (audit_log sd)),
                  obata_v2_metadata := Some ?md\<rparr>\<rparr>"
    have l2: "live ?st2 = Some (r, sd\<lparr>metadata := ?md\<rparr>)"
      using r by (simp add: live_def)
    then have "live ?st2 \<noteq> None" by simp
    from logAudit_live[OF this] obtain st3 where
      a: "logAudit ev ''DATA_SAVED''
            [(''timestamp'', SStr (now ev)),
             (''items_saved'', SNum (int (total_customers ?md + total_transactions ?md))),
             (''user'', SStr ''system'')] ?st2 = Inr st3"
      by blast
    have w2: "audit_log (sd\<lparr>metadata := ?md\<rparr>) < length (audits ?st2)"
      using w by simp
    have s: "snd (saveAllData ev None st) = st3"
      using r Some a by (simp add: saveAllData_def Let_def)
    from logAudit_mem[OF a l2 w2] show ?thesis
      unfolding s using r by auto
  qed
qed


lemma push_backup_other:
  "r < length (objs st) \<Longrightarrow> objs st ! r = sd \<Longrightarrow> d < length (objs st) \<Longrightarrow>
   \<exists>h'. objs (push_backup bk r sd st) ! d = (objs st ! d)\<lparr>backup_history := h'\<rparr>"
proof (cases "d = r \<and> length (hist_at st (backup_history sd)) \<ge> 50")
  case True
  assume "r < length (objs st)" "objs st ! r = sd" "d < length (objs st)"
  with True have "objs (push_backup bk r sd st) ! d
      = (objs st ! d)\<lparr>backup_history := length (hists st)\<rparr>"
    by (simp add: push_backup_def Let_def nth_append)
  then show ?thesis ..
next
  case False
  assume "r < length (objs st)" "objs st ! r = sd" "d < length (objs st)"
  with False have "objs (push_backup bk r sd st) ! d
      = (objs st ! d)\<lparr>backup_history := backup_history (objs st ! d)\<rparr>"
    by (auto simp: push_backup_def Let_def nth_append nth_list_update)
  then show ?thesis ..
qed

lemma push_backup_front:
  "backup_history sd < length (hists st) \<Longrightarrow>
   hists (push_backup bk r sd st) ! backup_history sd = bk # hists st ! backup_history sd"
  by (simp add: push_backup_def Let_def hist_at_def nth_append)

text \<open>
  The restore of an entry that \<open>createBackup\<close> wrote: the safety backup is put in front
  of the history that was live, the embedded copy becomes the live snapshot, and the
  first entry of its audit log is \<open>BACKUP_RESTORED\<close>.
\<close>

lemma restoreBackup_backup:
  assumes l: "live st = Some (r, sd)" and wh: "backup_history sd < length (hists st)"
    and i: "0 \<le> i" "i < int (length (live_history st))"
    and e: "live_history st ! nat i = Backup ty ts d cn"
    and d: "d < length (objs st)" and wa: "audit_log (objs st ! d) < length (audits st)"
  shows "\<exists>st'. restoreBackup ev i st = (None, st') \<and> currentData st' = Some d \<and>
           hists st' ! backup_history sd
             = new_backup ev ''pre_restore_backup'' st sd # live_history st \<and>
           live_audit_log st' =
             \<lparr> a_timestamp = now ev, a_action = ''BACKUP_RESTORED'',
               a_details = [(''timestamp'', SStr (now ev)), (''backup_timestamp'', SStr ts),
                            (''user'', SStr ''system'')],
               a_user_agent = user_agent ev \<rparr>
             # take 999 (live_audit_log (snd (saveAllData ev None
                   ((snd (createBackup ev ''pre_restore_backup'' st))\<lparr>currentData := Some d\<rparr>))))"
proof -
  from l have r: "r < length (objs st)" "objs st ! r = sd" "currentData st = Some r"
    by (simp_all add: live_Some)
  let ?bk = "new_backup ev ''pre_restore_backup'' st sd"
  let ?st1 = "snd (createBackup ev ''pre_restore_backup'' st)"
  let ?st2 = "?st1\<lparr>currentData := Some d\<rparr>"
  let ?st3 = "snd (saveAllData ev None ?st2)"
  note m = createBackup_mem[OF l, of ev "''pre_restore_backup''"]
  from push_backup_other[OF r(1,2) d, of ?bk] obtain h' where
    o: "objs (push_backup ?bk r sd st) ! d = (objs st ! d)\<lparr>backup_history := h'\<rparr>" ..
  have len: "length (objs ?st1) = Suc (length (objs st))"
    using m push_backup_obj[OF r(1,2), of ?bk] by simp
  have l2: "live ?st2 = Some (d, (objs st ! d)\<lparr>backup_history := h'\<rparr>)"
    using m o d len by (simp add: live_def)
  have w2: "audit_log ((objs st ! d)\<lparr>backup_history := h'\<rparr>) < length (audits ?st2)"
    using m wa by simp
  from saveAllData_mem[OF l2 w2, of ev] obtain sd3 where
    c3: "currentData ?st3 = Some d" and h3: "hists ?st3 = hists ?st1"
    and l3: "live ?st3 = Some (d, sd3)" and w3: "audit_log sd3 < length (audits ?st3)"
    by auto
  let ?details = "[(''timestamp'', SStr (now ev)), (''backup_timestamp'', SStr ts),
                   (''user'', SStr ''system'')]"
  from l3 have "live ?st3 \<noteq> None" by simp
  from logAudit_live[OF this] obtain st4 where
    a: "logAudit ev ''BACKUP_RESTORED'' ?details ?st3 = Inr st4" by blast
  note m4 = logAudit_mem[OF a l3 w3]
  have old: "hist_at st (backup_history sd) = live_history st"
    using l by (simp add: live_history_def)
  have res: "restoreBackup ev i st = (None, st4)"
    using l i e a old by (simp add: restoreBackup_def Let_def)
  have front: "hists st4 ! backup_history sd = ?bk # live_history st"
    using m4 h3 m push_backup_front[OF wh, of ?bk r] old wh by (simp add: hist_at_def)
  from res m4 c3 front show ?thesis by simp
qed

text \<open>
  The restore of an entry that \<open>logBackup\<close> wrote: after the safety backup the live
  snapshot is \<open>undefined\<close>, and the call answers \<open>false\<close>.
\<close>

lemma restoreBackup_log_entry:
  assumes l: "live st = Some (r, sd)"
    and i: "0 \<le> i" "i < int (length (live_history st))"
    and e: "live_history st ! nat i = BackupLog ty ts sz cn"
  shows "restoreBackup ev i st =
           (Some TypeError, (snd (createBackup ev ''pre_restore_backup'' st))\<lparr>currentData := None\<rparr>)"
proof -
  have old: "hist_at st (backup_history sd) = live_history st"
    using l by (simp add: live_history_def)
  let ?st2 = "(snd (createBackup ev ''pre_restore_backup'' st))\<lparr>currentData := None\<rparr>"
  have s: "saveAllData ev None ?st2 = (None, ?st2)"
    by (simp add: saveAllData_def)
  have a: "logAudit ev a dt ?st2 = Inl TypeError" for a dt
    by (simp add: logAudit_def live_def)
  show ?thesis
    using l i e old by (simp add: restoreBackup_def Let_def s a)
qed

lemma export_leaves_log_state: "snd (snd (exportAllData test_env ada_state)) = log_state"
  by code_simp

text \<open>
  Claim C9. An index out of range is answered with \<open>NotFound\<close> and the state is
  unchanged (\<open>restoreBackup_not_found\<close>), and an entry written by \<open>createBackup\<close>
  is restored as claimed (\<open>restoreBackup_backup\<close>). But the history also holds the
  entries of \<open>logBackup\<close>, which embed no copy (\<open>restoreBackup_log_entry\<close>): in the
  store left by one export, \<open>restoreBackup(0)\<close> finds the entry, takes the safety
  backup, sets the live snapshot to \<open>undefined\<close>, saves nothing, logs nothing and
  answers \<open>false\<close>.
\<close>

theorem C9_restore_of_log_entry:
  "live_snapshot log_state = Some ada_snapshot \<and>
   map b_type (live_history log_state) = [''manual''] \<and>
   fst (restoreBackup test_env 0 log_state) = Some TypeError \<and>
   live_snapshot (snd (restoreBackup test_env 0 log_state)) = None \<and>
   live_audit_log (snd (restoreBackup test_env 0 log_state)) = []"
proof -
  have l: "live log_state = Some (0, ada_snapshot)"
    by (simp add: live_def log_state_def ada_state_def)
  have h: "live_history log_state =
             [BackupLog ''manual'' ''2026-01-26T10:00:00.000Z'' 64
                \<lparr> n_customers = 1, n_transactions = 0, n_users = 0 \<rparr>]"
    unfolding live_history_def l
    by (simp add: hist_at_def log_state_def ada_state_def ada_snapshot_def)
  have r: "restoreBackup test_env 0 log_state =
             (Some TypeError,
              (snd (createBackup test_env ''pre_restore_backup'' log_state))\<lparr>currentData := None\<rparr>)"
    by (rule restoreBackup_log_entry[OF l]) (simp_all add: h)
  have n: "live ((snd (createBackup test_env ''pre_restore_backup'' log_state))
                   \<lparr>currentData := None\<rparr>) = None"
    by (simp add: live_def)
  show ?thesis
    unfolding r by (simp add: l h n live_snapshot_def live_audit_log_def)
qed

section \<open>Export and import\<close>

lemma stringify_snapshot_fields:
  "stringify_snapshot st path r = Some t \<Longrightarrow>
   \<exists>bh al. t = TSnapshot (settings (objs st ! r)) (users (objs st ! r))
                 (customers (objs st ! r)) (transactions (objs st ! r)) (loans (objs st ! r))
                 bh al (metadata (objs st ! r))"
  by (subst (asm) stringify_snapshot.simps) (auto simp: Let_def split: if_splits)

lemma exportAllData_container:
  assumes l: "live st = Some (r, sd)" and ok: "fst (exportAllData ev st)"
  shows "\<exists>c d bh al. fst (snd (exportAllData ev st)) = Some c \<and>
           schema_version c = Some ''2.3'' \<and> data c = Some d \<and>
           d = \<lparr> i_settings = Val (settings sd), i_users = Val (users sd),
                 i_customers = Val (customers sd), i_transactions = Val (transactions sd),
                 i_loans = Val (loans sd), i_backup_history = Val bh,
                 i_audit_log = Val al, i_metadata = Val (metadata sd) \<rparr>"
proof -
  from l have r: "currentData st = Some r" "objs st ! r = sd" by (simp_all add: live_Some)
  from ok r obtain t where t: "stringify_snapshot st [] r = Some t"
    by (cases "stringify_snapshot st [] r") (auto simp: exportAllData_def)
  from stringify_snapshot_fields[OF t] r obtain bh al where
    t': "t = TSnapshot (settings sd) (users sd) (customers sd) (transactions sd) (loans sd)
               bh al (metadata sd)"
    by auto
  show ?thesis
    using r t by (auto simp: exportAllData_def Let_def t' split: prod.splits option.splits)
qed

lemma first_by_distinct:
  "distinct (map key xs) \<Longrightarrow> key ` set xs \<inter> set seen = {} \<Longrightarrow> first_by key seen xs = xs"
proof (induction xs arbitrary: seen)
  case Nil
  show ?case by simp
next
  case (Cons x xs)
  from Cons.prems have "first_by key (key x # seen) xs = xs"
    by (intro Cons.IH) auto
  with Cons.prems show ?case by auto
qed

lemma keyed_union_empty:
  "distinct (map key xs) \<Longrightarrow> keyed_union key [] xs = xs"
  by (simp add: keyed_union_def first_by_distinct)

text \<open>
  A successful import: the live snapshot is a new object with the merged collections.
\<close>

lemma importData_live:
  assumes v: "validateImportData c" and d: "data c = Some d"
    and l: "live st = Some (r, sd)" and w: "audit_log sd < length (audits st)"
    and i: "i_customers d = Val ic" "i_transactions d = Val it" "i_users d = Val iu"
           "i_loans d = Val il"
  shows "\<exists>st' M. importData ev c st = (None, st') \<and> live_snapshot st' = Some M \<and>
           customers M = keyed_union c_id (customers sd) ic \<and>
           transactions M = keyed_union t_txId (transactions sd) it \<and>
           users M = keyed_union u_username (users sd) iu \<and>
           settings M = overlay (settings sd) (case i_settings d of Val s \<Rightarrow> s | _ \<Rightarrow> []) \<and>
           loans M = first_by l_loanId [] (loans sd @ il)"
proof -
  let ?st1 = "snd (createBackup ev ''pre_import_backup'' st)"
  from live_createBackup[OF l, of ev "''pre_import_backup''"] obtain sd1 where
    l1: "live ?st1 = Some (r, sd1)"
    and f1: "settings sd1 = settings sd" "users sd1 = users sd" "customers sd1 = customers sd"
      "transactions sd1 = transactions sd" "loans sd1 = loans sd" "audit_log sd1 = audit_log sd"
    by blast
  have a1: "audits ?st1 = audits st"
    using createBackup_mem[OF l, of ev "''pre_import_backup''"] by simp
  let ?m = "sd1\<lparr>customers := keyed_union c_id (customers sd1) ic,
                transactions := keyed_union t_txId (transactions sd1) it,
                users := keyed_union u_username (users sd1) iu,
                settings := overlay (settings sd1)
                              (case i_settings d of Val s \<Rightarrow> s | _ \<Rightarrow> []),
                loans := first_by l_loanId [] (loans sd1 @ il)\<rparr>"
  have m: "mergeData sd1 d = Inr ?m" by (rule mergeData_Inr[OF i])
  let ?st2 = "?st1\<lparr>objs := objs ?st1 @ [?m], currentData := Some (length (objs ?st1))\<rparr>"
  have l2: "live ?st2 = Some (length (objs ?st1), ?m)" by (simp add: live_def)
  have w2: "audit_log ?m < length (audits ?st2)" using a1 f1 w by simp
  let ?st3 = "snd (saveAllData ev None ?st2)"
  from saveAllData_mem[OF l2 w2, of ev] obtain sd3 where
    l3: "live ?st3 = Some (length (objs ?st1), sd3)"
    and w3: "audit_log sd3 < length (audits ?st3)"
    and e3: "sd3 = ?m\<lparr>metadata := compute_metadata ev ?m, audit_log := audit_log sd3\<rparr>"
    by blast
  let ?details = "[(''timestamp'', SStr (now ev)), (''source'', SStr ''file''),
        (''items_imported'',
           SNum (case i_metadata d of Val md \<Rightarrow> int (total_customers md) | _ \<Rightarrow> 0)),
        (''user'', SStr ''system'')]"
  from l3 have "live ?st3 \<noteq> None" by simp
  from logAudit_live[OF this] obtain st4 where
    a: "logAudit ev ''DATA_IMPORTED'' ?details ?st3 = Inr st4" by blast
  from logAudit_mem[OF a l3 w3] obtain sd4 where
    l4: "live st4 = Some (length (objs ?st1), sd4)" and e4: "sd4 = sd3\<lparr>audit_log := audit_log sd4\<rparr>"
    by blast
  have res: "importData ev c st = (None, st4)"
    using v d l1 m a by (simp add: importData_def Let_def)
  have "customers sd4 = customers ?m" "transactions sd4 = transactions ?m"
    "users sd4 = users ?m" "settings sd4 = settings ?m" "loans sd4 = loans ?m"
    by (subst e4, subst e3, simp)+
  with res l4 f1 show ?thesis by (simp add: live_snapshot_def)
qed

lemma live_new_store:
  "live (new_store ev) = Some (0, createDefaultData ev 0 0) \<and>
   audit_log (createDefaultData ev 0 0) < length (audits (new_store ev))"
  by (simp add: live_def new_store_def createDefaultData_def)

text \<open>The snapshot that the import of an exported container leaves in an empty store.\<close>

lemma export_import_result:
  assumes l: "live st = Some (r, sd)" and ok: "fst (exportAllData ev st)"
  shows "\<exists>st' M. export_import ev st (new_store ev0) = Some (None, st') \<and>
           live_snapshot st' = Some M \<and>
           customers M = keyed_union c_id [] (customers sd) \<and>
           transactions M = keyed_union t_txId [] (transactions sd) \<and>
           users M = keyed_union u_username (getDefaultUsers ev0) (users sd) \<and>
           settings M = overlay getDefaultSettings (settings sd) \<and>
           loans M = first_by l_loanId [] (loans sd)"
proof -
  from exportAllData_container[OF l ok] obtain c d bh al where
    c: "fst (snd (exportAllData ev st)) = Some c" "schema_version c = Some ''2.3''"
       "data c = Some d"
    and d: "d = \<lparr> i_settings = Val (settings sd), i_users = Val (users sd),
                 i_customers = Val (customers sd), i_transactions = Val (transactions sd),
                 i_loans = Val (loans sd), i_backup_history = Val bh,
                 i_audit_log = Val al, i_metadata = Val (metadata sd) \<rparr>"
    by blast
  have v: "validateImportData c" using c d by (simp add: validateImportData_def)
  have i: "i_customers d = Val (customers sd)" "i_transactions d = Val (transactions sd)"
    "i_users d = Val (users sd)" "i_loans d = Val (loans sd)"
    by (simp_all add: d)
  note n = live_new_store[of ev0]
  from importData_live[OF v c(3) conjunct1[OF n] conjunct2[OF n] i, of ev]
  obtain st' M where
    "importData ev c (new_store ev0) = (None, st')" "live_snapshot st' = Some M"
    "customers M = keyed_union c_id [] (customers sd)"
    "transactions M = keyed_union t_txId [] (transactions sd)"
    "users M = keyed_union u_username (getDefaultUsers ev0) (users sd)"
    "settings M = overlay getDefaultSettings (settings sd)"
    "loans M = first_by l_loanId [] (loans sd)"
    by (auto simp: createDefaultData_def d)
  moreover have "export_import ev st (new_store ev0) = Some (importData ev c (new_store ev0))"
    using ok c(1) by (cases "exportAllData ev st") (auto simp: export_import_def)
  ultimately show ?thesis by simp
qed

lemma roundtrip_result:
  assumes l: "live st = Some (r, sd)" and ok: "fst (exportAllData ev st)"
  shows "\<exists>M. roundtrip_snapshot ev st (new_store ev0) = Some M \<and>
           customers M = keyed_union c_id [] (customers sd) \<and>
           transactions M = keyed_union t_txId [] (transactions sd) \<and>
           users M = keyed_union u_username (getDefaultUsers ev0) (users sd) \<and>
           settings M = overlay getDefaultSettings (settings sd) \<and>
           loans M = first_by l_loanId [] (loans sd)"
proof -
  from export_import_result[OF l ok, of ev0] obtain st' M where
    "export_import ev st (new_store ev0) = Some (None, st')" "live_snapshot st' = Some M"
    "customers M = keyed_union c_id [] (customers sd)"
    "transactions M = keyed_union t_txId [] (transactions sd)"
    "users M = keyed_union u_username (getDefaultUsers ev0) (users sd)"
    "settings M = overlay getDefaultSettings (settings sd)"
    "loans M = first_by l_loanId [] (loans sd)"
    by blast
  then show ?thesis by (simp add: roundtrip_snapshot_def)
qed

lemma shop_state_exports:
  "live shop_state = Some (0, shop_snapshot) \<and> fst (exportAllData test_env shop_state)"
proof -
  have "live shop_state = Some (0, shop_snapshot)"
    by (simp add: live_def shop_state_def)
  moreover have "fst (exportAllData test_env shop_state)"
    by code_simp
  ultimately show ?thesis ..
qed

text \<open>
  Claim C6, as stated, fails. The shop's snapshot has one user, the administrator with
  the username \<open>Admin\<close> and no permissions recorded. Exported and imported into an
  empty store it comes back with the seeded administrator of that store in its place:
  the snapshot after the round trip is not the original.
\<close>

theorem C6_roundtrip_changes_users:
  "live_snapshot shop_state = Some shop_snapshot \<and>
   users shop_snapshot = [admin_user] \<and>
   roundtrip_snapshot test_env shop_state (new_store test_env) \<noteq> None \<and>
   map_option users (roundtrip_snapshot test_env shop_state (new_store test_env))
     = Some (getDefaultUsers test_env) \<and>
   getDefaultUsers test_env \<noteq> [admin_user] \<and>
   roundtrip_snapshot test_env shop_state (new_store test_env) \<noteq> Some shop_snapshot"
proof -
  note s = shop_state_exports
  from roundtrip_result[OF conjunct1[OF s] conjunct2[OF s], of test_env] obtain M where
    m: "roundtrip_snapshot test_env shop_state (new_store test_env) = Some M"
    and u: "users M = keyed_union u_username (getDefaultUsers test_env) (users shop_snapshot)"
    by blast
  have us: "users shop_snapshot = [admin_user]" by (simp add: shop_snapshot_def)
  have ku: "keyed_union u_username (getDefaultUsers test_env) [admin_user]
              = getDefaultUsers test_env"
    by (simp add: keyed_union_def getDefaultUsers_def admin_user_def)
  have ne: "getDefaultUsers test_env \<noteq> [admin_user]"
    by (simp add: getDefaultUsers_def admin_user_def capabilities_def)
  have "users M \<noteq> users shop_snapshot" using u us ku ne by simp
  then have "M \<noteq> shop_snapshot" by auto
  with m u us ku ne conjunct1[OF s] show ?thesis by (simp add: live_snapshot_def)
qed

text \<open>
  Claim C6, amended. For a snapshot that the export serialises and whose customers,
  transactions and loans have pairwise distinct keys, the export followed by the import
  into an empty store gives a snapshot with the same customers, transactions and loans
  (no id is renumbered). Its users are the seeded administrator followed by the users
  of the original with another username, and its settings are the default settings
  overlaid by those of the original.
\<close>

theorem C6_roundtrip_collections:
  assumes "live st = Some (r, S)" and "fst (exportAllData ev st)"
    and "distinct (map c_id (customers S))" and "distinct (map t_txId (transactions S))"
    and "distinct (map l_loanId (loans S))" and "distinct (map fst (settings S))"
  shows "\<exists>M. roundtrip_snapshot ev st (new_store ev0) = Some M \<and>
           customers M = customers S \<and> transactions M = transactions S \<and>
           loans M = loans S \<and>
           users M = keyed_union u_username (getDefaultUsers ev0) (users S) \<and>
           map_of (settings M) = map_of getDefaultSettings ++ map_of (settings S)"
proof -
  from roundtrip_result[OF assms(1,2), of ev0] obtain M where
    m: "roundtrip_snapshot ev st (new_store ev0) = Some M"
    and f: "customers M = keyed_union c_id [] (customers S)"
      "transactions M = keyed_union t_txId [] (transactions S)"
      "users M = keyed_union u_username (getDefaultUsers ev0) (users S)"
      "settings M = overlay getDefaultSettings (settings S)"
      "loans M = first_by l_loanId [] (loans S)"
    by blast
  have "customers M = customers S" "transactions M = transactions S"
    using f assms(3,4) by (simp_all add: keyed_union_empty)
  moreover have "loans M = loans S"
    using f assms(5) by (simp add: first_by_distinct)
  moreover have "map_of (settings M) = map_of getDefaultSettings ++ map_of (settings S)"
    using f assms(6) by (simp add: map_of_overlay)
  ultimately show ?thesis using m f(3) by simp
qed

theorem C6_roundtrip_collections_witness:
  "\<exists>M. roundtrip_snapshot test_env shop_state (new_store test_env) = Some M \<and>
       customers M = [ada] \<and> transactions M = [tx1] \<and> loans M = [loan1] \<and>
       map u_username (users M) = [Some ''Admin''] \<and>
       map_of (settings M) ''theme'' = Some (SStr ''light'') \<and>
       map_of (settings M) ''currency'' = Some (SStr [CHR 0xE2, CHR 0x82, CHR 0xA6])"
proof -
  note s = shop_state_exports
  have d: "distinct (map c_id (customers shop_snapshot))"
    "distinct (map t_txId (transactions shop_snapshot))"
    "distinct (map l_loanId (loans shop_snapshot))"
    "distinct (map fst (settings shop_snapshot))"
    by (simp_all add: shop_snapshot_def)
  from C6_roundtrip_collections[OF conjunct1[OF s] conjunct2[OF s] d, of test_env] obtain M where
    m: "roundtrip_snapshot test_env shop_state (new_store test_env) = Some M"
    and c: "customers M = customers shop_snapshot" "transactions M = transactions shop_snapshot"
      "loans M = loans shop_snapshot"
    and u: "users M = keyed_union u_username (getDefaultUsers test_env) (users shop_snapshot)"
    and se: "map_of (settings M) = map_of getDefaultSettings ++ map_of (settings shop_snapshot)"
    by blast
  have "map u_username (users M) = [Some ''Admin'']"
    unfolding u by (simp add: keyed_union_def getDefaultUsers_def shop_snapshot_def admin_user_def)
  moreover have "map_of (settings M) ''theme'' = Some (SStr ''light'')"
    "map_of (settings M) ''currency'' = Some (SStr [CHR 0xE2, CHR 0x82, CHR 0xA6])"
    unfolding se by (simp_all add: getDefaultSettings_def shop_snapshot_def)
  ultimately show ?thesis using m c
    by (intro exI[of _ M]) (simp add: shop_snapshot_def)
qed

section \<open>The backup that cannot be persisted\<close>

lemma stringify_snapshot_on_path: "r \<in> set path \<Longrightarrow> stringify_snapshot st path r = None"
  by (subst stringify_snapshot.simps) simp

lemma stringify_snapshot_self:
  assumes "d < length (objs st)" and "backup_history (objs st ! d) < length (hists st)"
    and "hists st ! backup_history (objs st ! d) = Backup ty ts d cn # rest"
  shows "stringify_snapshot st path d = None"
proof (cases "d \<in> set path")
  case True
  then show ?thesis by (rule stringify_snapshot_on_path)
next
  case False
  have "stringify_snapshot st (d # path) d = None"
    by (rule stringify_snapshot_on_path) simp
  with False assms show ?thesis
    by (subst stringify_snapshot.simps) (simp add: Let_def)
qed

text \<open>
  The backup that \<open>createBackup\<close> has just put in front of the history embeds a copy
  that holds this very history: \<open>JSON.stringify\<close> meets a cycle, nothing is persisted and
  the call answers \<open>null\<close>, while the entry stays in memory.
\<close>

lemma createBackup_circular:
  assumes l: "live st = Some (r, sd)" and w: "backup_history sd < length (hists st)"
  shows "fst (createBackup ev ty st) = None \<and>
         storage (snd (createBackup ev ty st)) = storage st"
proof -
  from l have r: "r < length (objs st)" "objs st ! r = sd" "currentData st = Some r"
    by (simp_all add: live_Some)
  let ?d = "length (objs st)"
  let ?bk = "Backup ty (now ev) ?d \<lparr> n_customers = length (customers sd),
              n_transactions = length (transactions sd), n_users = length (users sd) \<rparr>"
  let ?st2 = "push_backup ?bk r sd st"
  have od: "objs ?st2 ! ?d = sd" "?d < length (objs ?st2)"
    using r by (simp_all add: push_backup_def Let_def nth_append)
  have hl: "backup_history sd < length (hists ?st2)"
    using w by (simp add: push_backup_def Let_def)
  have fr: "hists ?st2 ! backup_history sd = ?bk # hists st ! backup_history sd"
    by (rule push_backup_front[OF w])
  have cyc: "stringify_snapshot ?st2 [] ?d = None"
    by (rule stringify_snapshot_self[OF od(2)]) (simp_all add: od hl fr)
  have live_arr: "hist_at ?st2 (backup_history (objs ?st2 ! r))
                    = take 50 (?bk # hists st ! backup_history sd)"
    using r w by (simp add: push_backup_def Let_def hist_at_def nth_append)
  have "stringify_history ?st2 (backup_history (objs ?st2 ! r)) = None"
    unfolding stringify_history_def live_arr using cyc by (simp add: Let_def)
  moreover have "storage ?st2 = storage st"
    by (simp add: push_backup_def Let_def)
  ultimately show ?thesis
    using l by (simp add: createBackup_def Let_def new_backup_def)
qed

end
